theory Spec2Isabelle
  imports Complex_Main
begin

section \<open>The tax-authority submission client of tax\_integration\_app.py\<close>

text \<open>
  The development embeds \<^verbatim>\<open>TaxAuthorityClient\<close> (tax\_integration\_app.py, lines 84 to 120):
  its constructor and \<^verbatim>\<open>submit_invoice\<close>, the retry loop with randomised exponential
  backoff. The library calls of the loop are effects on an explicit world, which stands
  for the environment of one call of \<^verbatim>\<open>submit_invoice\<close> with the arguments it passes:
  \<^item> \<^verbatim>\<open>requests.post\<close> returns a response object or raises. What it raises is a
    \<^verbatim>\<open>RequestException\<close> (connection refused, timeout, DNS failure, an address without a
    scheme) or an exception of another class, which the handler of the loop does not catch
    (the \<^verbatim>\<open>ValueError\<close> for a timeout that is not positive, the \<^verbatim>\<open>LocationParseError\<close> of
    urllib3 for some addresses). Which of the three happens at each call is read from
    the world;
  \<^item> \<^verbatim>\<open>response.json()\<close> returns the decoded body or raises: a
    \<^verbatim>\<open>requests.exceptions.JSONDecodeError\<close>, which is a \<^verbatim>\<open>RequestException\<close> (as
    \<^verbatim>\<open>requests\<close> does from version 2.27 on), or an exception of another class (a
    \<^verbatim>\<open>RecursionError\<close> on a deeply nested body), again as the world says;
  \<^item> \<^verbatim>\<open>random.uniform(a, b)\<close> computes \<^verbatim>\<open>a + (b - a) * random()\<close>; the world gives the
    position of the result between \<open>a\<close> and \<open>b\<close>, a number that the library keeps in
    [0, 1]: the end point \<open>b\<close> is reached when the sum is rounded up to it;
  \<^item> \<^verbatim>\<open>time.sleep\<close> raises \<^verbatim>\<open>ValueError\<close> on a negative duration and \<^verbatim>\<open>OverflowError\<close> on
    a duration beyond the largest one the platform can represent (about 9.2e9 seconds
    where the time is a 64-bit count of nanoseconds), which the world holds; otherwise it
    returns after the delay.
  The outcome of a library call is read from the world and not computed from the
  arguments of the call: a world describes the libraries for one configuration. For a
  timeout that is not positive, for instance, the worlds that describe \<^verbatim>\<open>requests\<close> are
  those in which every call of \<^verbatim>\<open>requests.post\<close> raises a \<^verbatim>\<open>ValueError\<close>. A theorem that
  needs the library calls to raise nothing but a \<^verbatim>\<open>RequestException\<close> says so in a
  hypothesis on the world.
  Every request and every completed sleep is appended to a trace, oldest first. Durations
  are real numbers: the rounding of floating-point arithmetic is not modelled, and the
  \<^verbatim>\<open>OverflowError\<close> of a power or product too large for a float is the one of the sleep,
  whose limit is smaller.
\<close>

subsection \<open>Data\<close>

type_synonym json = string
  \<comment> \<open>a JSON document in serialised form; the client never looks inside\<close>

datatype exn =
    RequestException string
  | ValueError string
  | OverflowError string
  | OtherException string string
  \<comment> \<open>\<open>OtherException cls msg\<close>: an exception of the class \<open>cls\<close>, which is not a subclass of
      RequestException, with str(e) = msg\<close>

text \<open>The response object of \<^verbatim>\<open>requests\<close>, as far as the client reads it.\<close>

record http_response =
  r_status_code :: int
  r_content :: string
  r_json :: "string + json"
  \<comment> \<open>what \<^verbatim>\<open>response.json()\<close> does: \<open>Inl msg\<close> raises JSONDecodeError(msg), \<open>Inr v\<close> returns v\<close>

text \<open>The value stored under the key "response" of an attempt dictionary.\<close>

datatype pyvalue = PyNone | PyJson json | PyStr string

text \<open>One entry of \<^verbatim>\<open>attempts_log\<close>: the dictionary with the keys attempt, status\_code, response.\<close>

record attempt_entry =
  attempt :: int
  status_code :: "int option"
  response :: pyvalue

datatype event = Post string json real | Sleep real
  \<comment> \<open>\<open>Post url body timeout\<close>: one call of requests.post; \<open>Sleep d\<close>: one completed time.sleep(d)\<close>

record world =
  transport :: "nat \<Rightarrow> string + http_response"
  \<comment> \<open>outcome of the n-th next call of requests.post: \<open>Inl msg\<close> raises an exception with
      str(e) = msg, \<open>Inr r\<close> returns the response r\<close>
  escapes :: "nat \<Rightarrow> string option"
  \<comment> \<open>the class of the exception that requests.post or response.json() raises in the n-th next
      attempt, when it is not a subclass of RequestException; \<open>None\<close> when it is one\<close>
  rand :: "nat \<Rightarrow> real"
  \<comment> \<open>for the n-th next call of random.uniform(a, b): the position of its result between a and b\<close>
  sleep_limit :: real
  \<comment> \<open>the longest duration that time.sleep accepts\<close>
  trace :: "event list"

record TaxAuthorityClient =
  base_url :: string
  max_retries :: int
  backoff_base :: real
  timeout :: real

subsection \<open>The constructor\<close>

text \<open>\<^verbatim>\<open>__init__\<close> stores its four arguments and checks none of them.\<close>

definition init :: "string \<Rightarrow> int \<Rightarrow> real \<Rightarrow> real \<Rightarrow> TaxAuthorityClient" where
  "init base_url' max_retries' backoff_base' timeout' =
     \<lparr>base_url = base_url', max_retries = max_retries',
      backoff_base = backoff_base', timeout = timeout'\<rparr>"

text \<open>The defaults of the signature: \<^verbatim>\<open>max_retries=3, backoff_base=2, timeout=5\<close>.\<close>

definition init_default :: "string \<Rightarrow> TaxAuthorityClient" where
  "init_default base_url' = init base_url' 3 2 5"

subsection \<open>The library calls\<close>

text \<open>
  The exception object of an attempt: of the class the world names, a \<^verbatim>\<open>RequestException\<close>
  when it names none.
\<close>

definition raised :: "string option \<Rightarrow> string \<Rightarrow> exn" where
  "raised esc msg = (case esc of None \<Rightarrow> RequestException msg | Some cls \<Rightarrow> OtherException cls msg)"

definition post :: "string \<Rightarrow> json \<Rightarrow> real \<Rightarrow> world \<Rightarrow> (exn + http_response) \<times> world" where
  "post url body tmo w =
     (let w' = w\<lparr>transport := (\<lambda>n. transport w (Suc n)),
                 escapes := (\<lambda>n. escapes w (Suc n)),
                 trace := trace w @ [Post url body tmo]\<rparr>
      in case transport w 0 of
           Inl msg \<Rightarrow> (Inl (raised (escapes w 0) msg), w')
         | Inr r \<Rightarrow> (Inr r, w'))"

text \<open>\<^verbatim>\<open>response.json()\<close> in an attempt whose exceptions have the class \<open>esc\<close>.\<close>

definition response_json :: "string option \<Rightarrow> http_response \<Rightarrow> exn + json" where
  "response_json esc r = (case r_json r of Inl msg \<Rightarrow> Inl (raised esc msg) | Inr v \<Rightarrow> Inr v)"

definition random_uniform :: "real \<Rightarrow> real \<Rightarrow> world \<Rightarrow> real \<times> world" where
  "random_uniform a b w = (a + (b - a) * rand w 0, w\<lparr>rand := (\<lambda>n. rand w (Suc n))\<rparr>)"

definition sleep :: "real \<Rightarrow> world \<Rightarrow> (exn + unit) \<times> world" where
  "sleep d w =
     (if d < 0 then (Inl (ValueError ''sleep length must be non-negative''), w)
      else if sleep_limit w < d
      then (Inl (OverflowError ''timestamp out of range for platform time_t''), w)
      else (Inr (), w\<lparr>trace := trace w @ [Sleep d]\<rparr>))"

subsection \<open>submit\_invoice\<close>

text \<open>
  What the body of the \<^verbatim>\<open>try\<close> leaves behind: a \<^verbatim>\<open>return\<close> statement was executed
  (with the returned status), or control falls through to the backoff.
\<close>

datatype flow = Return string | Fallthrough

text \<open>
  The \<^verbatim>\<open>try\<close> block (lines 97 to 107). The dictionary is built before it is appended, so
  an exception of \<^verbatim>\<open>response.json()\<close> leaves \<^verbatim>\<open>attempts_log\<close> as it was.
\<close>

definition try_block ::
  "TaxAuthorityClient \<Rightarrow> string \<Rightarrow> json \<Rightarrow> int \<Rightarrow> attempt_entry list \<Rightarrow> world
     \<Rightarrow> (exn + flow \<times> attempt_entry list) \<times> world" where
  "try_block self url invoice attempt' attempts_log w =
     (case post url invoice (timeout self) w of
        (Inl e, w1) \<Rightarrow> (Inl e, w1)
      | (Inr r, w1) \<Rightarrow>
          (case (if r_content r \<noteq> [] then map_sum id PyJson (response_json (escapes w 0) r)
                 else Inr PyNone) of
             Inl e \<Rightarrow> (Inl e, w1)
           | Inr body \<Rightarrow>
               (let attempts_log1 = attempts_log @
                      [\<lparr>attempt = attempt', status_code = Some (r_status_code r), response = body\<rparr>]
                in if r_status_code r = 200 then (Inr (Return ''SUBMITTED'', attempts_log1), w1)
                   else if 400 \<le> r_status_code r \<and> r_status_code r < 500
                        then (Inr (Return ''FAILED'', attempts_log1), w1)
                   else (Inr (Fallthrough, attempts_log1), w1))))"

text \<open>
  The \<^verbatim>\<open>try\<close> statement with its handler (lines 96 to 114): a \<^verbatim>\<open>RequestException\<close> is
  caught and logged, any other exception propagates.
\<close>

definition try_except ::
  "TaxAuthorityClient \<Rightarrow> string \<Rightarrow> json \<Rightarrow> int \<Rightarrow> attempt_entry list \<Rightarrow> world
     \<Rightarrow> (exn + flow \<times> attempt_entry list) \<times> world" where
  "try_except self url invoice attempt' attempts_log w =
     (case try_block self url invoice attempt' attempts_log w of
        (Inl (RequestException e), w1) \<Rightarrow>
          (Inr (Fallthrough, attempts_log @
                  [\<lparr>attempt = attempt', status_code = None, response = PyStr e\<rparr>]), w1)
      | (Inl other, w1) \<Rightarrow> (Inl other, w1)
      | (Inr res, w1) \<Rightarrow> (Inr res, w1))"

text \<open>The backoff (lines 116 to 118).\<close>

definition backoff :: "TaxAuthorityClient \<Rightarrow> int \<Rightarrow> world \<Rightarrow> (exn + unit) \<times> world" where
  "backoff self attempt' w =
     (if attempt' < max_retries self then
        (case random_uniform (1 / 2) (3 / 2) w of
           (u, w1) \<Rightarrow> (let sleep_time = backoff_base self ^ nat attempt' * u in sleep sleep_time w1))
      else (Inr (), w))"

text \<open>
  The \<^verbatim>\<open>for\<close> loop over \<^verbatim>\<open>range(1, self.max_retries + 1)\<close>, entered at the value
  \<open>attempt'\<close> of the loop variable, and the \<^verbatim>\<open>return\<close> after it (line 120).
\<close>

function submit_loop ::
  "TaxAuthorityClient \<Rightarrow> string \<Rightarrow> json \<Rightarrow> int \<Rightarrow> attempt_entry list \<Rightarrow> world
     \<Rightarrow> (exn + string \<times> attempt_entry list) \<times> world" where
  "submit_loop self url invoice attempt' attempts_log w =
     (if attempt' < max_retries self + 1 then
        (case try_except self url invoice attempt' attempts_log w of
           (Inl e, w1) \<Rightarrow> (Inl e, w1)
         | (Inr (Return status, attempts_log1), w1) \<Rightarrow> (Inr (status, attempts_log1), w1)
         | (Inr (Fallthrough, attempts_log1), w1) \<Rightarrow>
             (case backoff self attempt' w1 of
                (Inl e, w2) \<Rightarrow> (Inl e, w2)
              | (Inr _, w2) \<Rightarrow> submit_loop self url invoice (attempt' + 1) attempts_log1 w2))
      else (Inr (''FAILED'', attempts_log), w))"
  by pat_completeness auto
termination
  by (relation "measure (\<lambda>(self, url, invoice, attempt', attempts_log, w).
                  nat (max_retries self + 1 - attempt'))") auto

definition submit_invoice ::
  "TaxAuthorityClient \<Rightarrow> json \<Rightarrow> string \<Rightarrow> world
     \<Rightarrow> (exn + string \<times> attempt_entry list) \<times> world" where
  "submit_invoice self invoice mode w =
     (let url = base_url self @ ''/tax/submit?mode='' @ mode;
          attempts_log = []
      in submit_loop self url invoice 1 attempts_log w)"

subsection \<open>Reading a run off the environment\<close>

text \<open>
  The notions below describe, for one outcome of \<^verbatim>\<open>requests.post\<close>, what an iteration
  of the loop does with it. They are not part of the program; the lemmas of the next
  section prove that the program behaves as they say.
\<close>

text \<open>A response whose body the \<^verbatim>\<open>try\<close> block can log: empty, or accepted by \<^verbatim>\<open>response.json()\<close>.\<close>

definition decodable :: "http_response \<Rightarrow> bool" where
  "decodable r \<longleftrightarrow> r_content r = [] \<or> \<not> isl (r_json r)"

text \<open>The entry that attempt \<open>k\<close> appends for the outcome \<open>out\<close>.\<close>

definition logged :: "int \<Rightarrow> string + http_response \<Rightarrow> attempt_entry" where
  "logged k out =
     (case out of
        Inl msg \<Rightarrow> \<lparr>attempt = k, status_code = None, response = PyStr msg\<rparr>
      | Inr r \<Rightarrow>
          if r_content r = []
          then \<lparr>attempt = k, status_code = Some (r_status_code r), response = PyNone\<rparr>
          else (case r_json r of
                  Inl msg \<Rightarrow> \<lparr>attempt = k, status_code = None, response = PyStr msg\<rparr>
                | Inr v \<Rightarrow> \<lparr>attempt = k, status_code = Some (r_status_code r),
                             response = PyJson v\<rparr>))"

text \<open>The status an attempt returns with, if the outcome \<open>out\<close> makes it return.\<close>

definition verdict :: "string + http_response \<Rightarrow> string option" where
  "verdict out =
     (case out of
        Inl msg \<Rightarrow> None
      | Inr r \<Rightarrow>
          if \<not> decodable r then None
          else if r_status_code r = 200 then Some ''SUBMITTED''
          else if 400 \<le> r_status_code r \<and> r_status_code r < 500 then Some ''FAILED''
          else None)"

text \<open>
  The exception that leaves the attempt with the outcome \<open>out\<close>, when the exceptions of
  the attempt have the class \<open>esc\<close>: the handler catches a \<^verbatim>\<open>RequestException\<close> only.
\<close>

definition uncaught :: "string option \<Rightarrow> string + http_response \<Rightarrow> exn option" where
  "uncaught esc out =
     (case esc of
        None \<Rightarrow> None
      | Some cls \<Rightarrow>
          (case out of
             Inl msg \<Rightarrow> Some (OtherException cls msg)
           | Inr r \<Rightarrow>
               if r_content r = [] then None
               else (case r_json r of
                       Inl msg \<Rightarrow> Some (OtherException cls msg)
                     | Inr v \<Rightarrow> None)))"

text \<open>The world after one call of \<^verbatim>\<open>requests.post\<close>.\<close>

definition posted :: "string \<Rightarrow> json \<Rightarrow> real \<Rightarrow> world \<Rightarrow> world" where
  "posted url body tmo w =
     w\<lparr>transport := (\<lambda>n. transport w (Suc n)),
       escapes := (\<lambda>n. escapes w (Suc n)),
       trace := trace w @ [Post url body tmo]\<rparr>"

text \<open>The \<open>i\<close>-th next value of \<^verbatim>\<open>random.uniform(0.5, 1.5)\<close>.\<close>

definition draw :: "world \<Rightarrow> nat \<Rightarrow> real" where
  "draw w i = 1 / 2 + (3 / 2 - 1 / 2) * rand w i"

text \<open>
  The duration of the sleep after the \<open>i\<close>-th next attempt, when the next attempt has the
  number \<open>a\<close>.
\<close>

definition pause :: "TaxAuthorityClient \<Rightarrow> int \<Rightarrow> world \<Rightarrow> nat \<Rightarrow> real" where
  "pause self a w i = backoff_base self ^ nat (a + int i) * draw w i"

text \<open>
  The effects of \<open>n\<close> consecutive attempts, the first one numbered \<open>a\<close>: a request per
  attempt and a sleep between two attempts.
\<close>

definition new_events ::
  "TaxAuthorityClient \<Rightarrow> string \<Rightarrow> json \<Rightarrow> int \<Rightarrow> world \<Rightarrow> nat \<Rightarrow> event list" where
  "new_events self url invoice a w n =
     concat (map (\<lambda>i. Post url invoice (timeout self) #
                        (if Suc i < n then [Sleep (pause self a w i)] else []))
                 [0..<n])"

text \<open>
  What a run of \<open>n\<close> attempts, the first one numbered \<open>a\<close>, has done in the world \<open>w\<close>
  when it ends in the world \<open>w'\<close>: every attempt but the last has raised nothing that
  escapes, has not ended the loop, was not the last allowed one, and was followed by a
  sleep that \<^verbatim>\<open>time.sleep\<close> accepted.
\<close>

definition effects ::
  "TaxAuthorityClient \<Rightarrow> string \<Rightarrow> json \<Rightarrow> int \<Rightarrow> world \<Rightarrow> world \<Rightarrow> nat \<Rightarrow> bool" where
  "effects self url invoice a w w' n \<longleftrightarrow>
     trace w' = trace w @ new_events self url invoice a w n
   \<and> (\<forall>i. Suc i < n \<longrightarrow>
          verdict (transport w i) = None \<and> uncaught (escapes w i) (transport w i) = None
          \<and> a + int i < max_retries self
          \<and> 0 \<le> pause self a w i \<and> pause self a w i \<le> sleep_limit w)"

text \<open>
  A run of the loop that starts at attempt \<open>a\<close> with the log \<open>lg\<close> in the world \<open>w\<close>,
  makes \<open>n\<close> attempts and returns \<open>(st, lg')\<close> in the world \<open>w'\<close>.
\<close>

definition run_shape ::
  "TaxAuthorityClient \<Rightarrow> string \<Rightarrow> json \<Rightarrow> int \<Rightarrow> attempt_entry list \<Rightarrow> world
     \<Rightarrow> string \<Rightarrow> attempt_entry list \<Rightarrow> world \<Rightarrow> nat \<Rightarrow> bool" where
  "run_shape self url invoice a lg w st lg' w' n \<longleftrightarrow>
     lg' = lg @ map (\<lambda>i. logged (a + int i) (transport w i)) [0..<n]
   \<and> (\<forall>i. Suc i < n \<longrightarrow> verdict (transport w i) = None)
   \<and> ((0 < n \<and> verdict (transport w (n - 1)) = Some st)
        \<or> (st = ''FAILED'' \<and> (\<forall>i<n. verdict (transport w i) = None)
            \<and> int n = max 0 (max_retries self + 1 - a)))
   \<and> int n \<le> max 0 (max_retries self + 1 - a)
   \<and> (a \<le> max_retries self \<longrightarrow> 0 < n)
   \<and> (\<forall>i<n. uncaught (escapes w i) (transport w i) = None)
   \<and> effects self url invoice a w w' n"

text \<open>
  A run of the loop that starts at attempt \<open>a\<close> in the world \<open>w\<close>, makes \<open>n\<close> attempts and
  raises \<open>e\<close> in the world \<open>w'\<close>: in the \<^verbatim>\<open>try\<close> block of its last attempt, or in the
  backoff after it.
\<close>

definition fault_shape ::
  "TaxAuthorityClient \<Rightarrow> string \<Rightarrow> json \<Rightarrow> int \<Rightarrow> world \<Rightarrow> exn \<Rightarrow> world \<Rightarrow> nat \<Rightarrow> bool" where
  "fault_shape self url invoice a w e w' n \<longleftrightarrow>
     0 < n
   \<and> (\<forall>i<n. verdict (transport w i) = None)
   \<and> a + int n \<le> max_retries self + 1
   \<and> (uncaught (escapes w (n - 1)) (transport w (n - 1)) = Some e
        \<or> (uncaught (escapes w (n - 1)) (transport w (n - 1)) = None
            \<and> a + int n \<le> max_retries self
            \<and> (pause self a w (n - 1) < 0
                  \<and> e = ValueError ''sleep length must be non-negative''
                \<or> sleep_limit w < pause self a w (n - 1)
                  \<and> e = OverflowError ''timestamp out of range for platform time_t'')))
   \<and> effects self url invoice a w w' n"

text \<open>
  The world \<open>w2\<close> in which the loop goes on after an attempt numbered \<open>a\<close> that was made
  in the world \<open>w\<close>: the request and, when the attempt was not the last allowed one, an
  accepted sleep have happened.
\<close>

definition advanced ::
  "TaxAuthorityClient \<Rightarrow> string \<Rightarrow> json \<Rightarrow> int \<Rightarrow> world \<Rightarrow> world \<Rightarrow> bool" where
  "advanced self url invoice a w w2 \<longleftrightarrow>
     transport w2 = (\<lambda>k. transport w (Suc k))
   \<and> escapes w2 = (\<lambda>k. escapes w (Suc k))
   \<and> sleep_limit w2 = sleep_limit w
   \<and> (a < max_retries self \<longrightarrow>
         rand w2 = (\<lambda>k. rand w (Suc k))
         \<and> 0 \<le> pause self a w 0 \<and> pause self a w 0 \<le> sleep_limit w)
   \<and> trace w2 = trace w @ Post url invoice (timeout self) #
         (if a < max_retries self then [Sleep (pause self a w 0)] else [])"

text \<open>The number of requests in a trace.\<close>

primrec count_posts :: "event list \<Rightarrow> nat" where
  "count_posts [] = 0"
| "count_posts (e # es) =
     (case e of Post u b t \<Rightarrow> Suc (count_posts es) | Sleep d \<Rightarrow> count_posts es)"

text \<open>
  A world for examples: every request has the outcome \<open>out\<close>, every exception is a
  \<^verbatim>\<open>RequestException\<close>, every draw of \<^verbatim>\<open>random.uniform(0.5, 1.5)\<close> is 1, \<^verbatim>\<open>time.sleep\<close>
  accepts up to 9223372036 seconds, and nothing has happened yet.
\<close>

definition always :: "string + http_response \<Rightarrow> world" where
  "always out =
     \<lparr>transport = (\<lambda>n. out), escapes = (\<lambda>n. None), rand = (\<lambda>n. 1 / 2),
      sleep_limit = 9223372036, trace = []\<rparr>"

text \<open>A world whose first request has the outcome \<open>first\<close> and every later one \<open>rest\<close>.\<close>

definition first_then :: "string + http_response \<Rightarrow> string + http_response \<Rightarrow> world" where
  "first_then first rest =
     \<lparr>transport = (\<lambda>n. if n = 0 then first else rest), escapes = (\<lambda>n. None),
      rand = (\<lambda>n. 1 / 2), sleep_limit = 9223372036, trace = []\<rparr>"

text \<open>
  The world \<open>always out\<close> with every draw of \<^verbatim>\<open>random.uniform(0.5, 1.5)\<close> at its end
  point 1.5.
\<close>

definition always_at_end_point :: "string + http_response \<Rightarrow> world" where
  "always_at_end_point out = (always out)\<lparr>rand := (\<lambda>n. 1)\<rparr>"

text \<open>
  The world \<open>always out\<close> with every exception of the class \<open>cls\<close>, which is not a
  \<^verbatim>\<open>RequestException\<close>.
\<close>

definition always_escaping :: "string \<Rightarrow> string + http_response \<Rightarrow> world" where
  "always_escaping cls out = (always out)\<lparr>escapes := (\<lambda>n. Some cls)\<rparr>"

section \<open>One iteration\<close>

declare submit_loop.simps [simp del]

lemma uncaught_verdict: "uncaught esc out = Some e \<Longrightarrow> verdict out = None"
  by (auto simp: uncaught_def verdict_def decodable_def split: option.splits sum.splits if_splits)

lemma uncaught_no_class [simp]: "uncaught None out = None"
  by (simp add: uncaught_def)

lemma uncaught_other: "uncaught esc out = Some e \<Longrightarrow> \<exists>cls msg. e = OtherException cls msg"
  by (auto simp: uncaught_def split: option.splits sum.splits if_splits)

lemma uncaught_response: "decodable r \<Longrightarrow> uncaught esc (Inr r) = None"
  by (auto simp: uncaught_def decodable_def split: option.splits sum.splits)

lemma try_except_eq:
  "try_except self url invoice a lg w =
     (case uncaught (escapes w 0) (transport w 0) of
        Some e \<Rightarrow> (Inl e, posted url invoice (timeout self) w)
      | None \<Rightarrow>
          (Inr (case verdict (transport w 0) of Some s \<Rightarrow> Return s | None \<Rightarrow> Fallthrough,
                lg @ [logged a (transport w 0)]),
           posted url invoice (timeout self) w))"
  by (cases "transport w 0"; cases "escapes w 0")
     (auto simp: try_except_def try_block_def post_def response_json_def raised_def logged_def
                 verdict_def uncaught_def posted_def decodable_def Let_def split: sum.splits)

lemma backoff_eq:
  "backoff self a w =
     (if a < max_retries self then
        (if pause self a w 0 < 0
         then (Inl (ValueError ''sleep length must be non-negative''),
               w\<lparr>rand := (\<lambda>n. rand w (Suc n))\<rparr>)
         else if sleep_limit w < pause self a w 0
         then (Inl (OverflowError ''timestamp out of range for platform time_t''),
               w\<lparr>rand := (\<lambda>n. rand w (Suc n))\<rparr>)
         else (Inr (), w\<lparr>rand := (\<lambda>n. rand w (Suc n)),
                         trace := trace w @ [Sleep (pause self a w 0)]\<rparr>))
      else (Inr (), w))"
  by (simp add: backoff_def random_uniform_def sleep_def pause_def draw_def Let_def)

lemma backoff_Inr:
  assumes "backoff self a w1 = (Inr u, w2)"
  shows "transport w2 = transport w1"
    and "escapes w2 = escapes w1"
    and "sleep_limit w2 = sleep_limit w1"
    and "a < max_retries self \<Longrightarrow> rand w2 = (\<lambda>k. rand w1 (Suc k))"
    and "a < max_retries self \<Longrightarrow> 0 \<le> pause self a w1 0 \<and> pause self a w1 0 \<le> sleep_limit w1"
    and "trace w2 = trace w1 @ (if a < max_retries self then [Sleep (pause self a w1 0)] else [])"
  using assms by (auto simp: backoff_eq split: if_splits)

lemma backoff_Inl:
  assumes "backoff self a w1 = (Inl e, w2)"
  shows "a < max_retries self"
    and "trace w2 = trace w1"
    and "pause self a w1 0 < 0 \<and> e = ValueError ''sleep length must be non-negative''
         \<or> sleep_limit w1 < pause self a w1 0
           \<and> e = OverflowError ''timestamp out of range for platform time_t''"
  using assms by (auto simp: backoff_eq split: if_splits)

lemma backoff_accepted:
  assumes "a < max_retries self \<longrightarrow> 0 \<le> pause self a w1 0 \<and> pause self a w1 0 \<le> sleep_limit w1"
  shows "\<exists>w2. backoff self a w1 = (Inr (), w2)"
  using assms by (auto simp: backoff_eq not_less)

lemma verdict_Some:
  "verdict out = Some s \<longleftrightarrow>
     (\<exists>r. out = Inr r \<and> decodable r \<and>
          (r_status_code r = 200 \<and> s = ''SUBMITTED''
           \<or> 400 \<le> r_status_code r \<and> r_status_code r < 500 \<and> s = ''FAILED''))"
  by (cases out) (auto simp: verdict_def)

lemma verdict_None:
  "verdict out = None \<longleftrightarrow>
     (case out of
        Inl msg \<Rightarrow> True
      | Inr r \<Rightarrow> \<not> decodable r \<or>
          (r_status_code r \<noteq> 200 \<and> \<not> (400 \<le> r_status_code r \<and> r_status_code r < 500)))"
  by (cases out) (auto simp: verdict_def)

section \<open>The loop\<close>

lemma submit_loop_done:
  "\<not> a < max_retries self + 1 \<Longrightarrow>
   submit_loop self url invoice a lg w = (Inr (''FAILED'', lg), w)"
  by (subst submit_loop.simps) simp

lemma submit_loop_step:
  "a < max_retries self + 1 \<Longrightarrow>
   submit_loop self url invoice a lg w =
     (case uncaught (escapes w 0) (transport w 0) of
        Some e \<Rightarrow> (Inl e, posted url invoice (timeout self) w)
      | None \<Rightarrow>
          (case verdict (transport w 0) of
             Some s \<Rightarrow>
               (Inr (s, lg @ [logged a (transport w 0)]), posted url invoice (timeout self) w)
           | None \<Rightarrow>
               (case backoff self a (posted url invoice (timeout self) w) of
                  (Inl e, w2) \<Rightarrow> (Inl e, w2)
                | (Inr u, w2) \<Rightarrow>
                    submit_loop self url invoice (a + 1) (lg @ [logged a (transport w 0)]) w2)))"
  by (subst submit_loop.simps) (simp add: try_except_eq split: option.splits)

lemma new_events_0: "new_events self url invoice a w 0 = []"
  by (simp add: new_events_def)

lemma new_events_1: "new_events self url invoice a w (Suc 0) = [Post url invoice (timeout self)]"
  by (simp add: new_events_def)

lemma pause_Suc:
  "pause self a w (Suc i) = pause self (a + 1) (w\<lparr>rand := (\<lambda>k. rand w (Suc k))\<rparr>) i"
  by (simp add: pause_def draw_def add.assoc)

lemma pause_0: "pause self a w 0 = backoff_base self ^ nat a * draw w 0"
  by (simp add: pause_def)

lemma new_events_Suc:
  "new_events self url invoice a w (Suc n) =
     Post url invoice (timeout self) #
       (if 0 < n then [Sleep (pause self a w 0)] else []) @
       new_events self url invoice (a + 1) (w\<lparr>rand := (\<lambda>k. rand w (Suc k))\<rparr>) n"
  unfolding new_events_def map_upt_Suc
  by (simp add: pause_Suc cong: if_cong)

lemma pause_cong:
  "rand w k = rand v k \<Longrightarrow> pause self a w k = pause self a v k"
  by (simp add: pause_def draw_def)

lemma new_events_rand_cong:
  "(\<And>k. k < n \<Longrightarrow> rand w k = rand v k) \<Longrightarrow>
   new_events self url invoice a w n = new_events self url invoice a v n"
  unfolding new_events_def
  by (intro arg_cong[where f=concat] map_cong) (auto simp: pause_def draw_def)

lemma advanced_backoff:
  assumes "backoff self a (posted url invoice (timeout self) w) = (Inr u, w2)"
  shows "advanced self url invoice a w w2"
proof -
  let ?w1 = "posted url invoice (timeout self) w"
  note b = backoff_Inr[OF assms]
  have p: "pause self a ?w1 0 = pause self a w 0" by (simp add: pause_def draw_def posted_def)
  show ?thesis
    unfolding advanced_def using b p by (simp add: posted_def cong: if_cong)
qed

lemma effects_0: "w' = w \<Longrightarrow> effects self url invoice a w w' 0"
  by (simp add: effects_def new_events_0)

lemma effects_1:
  "trace w' = trace w @ [Post url invoice (timeout self)] \<Longrightarrow>
   effects self url invoice a w w' (Suc 0)"
  by (simp add: effects_def new_events_1)

lemma effects_Suc:
  assumes ef: "effects self url invoice (a + 1) w2 w' n"
    and ad: "advanced self url invoice a w w2"
    and n: "0 < n \<longleftrightarrow> a < max_retries self"
    and v: "verdict (transport w 0) = None"
    and u: "uncaught (escapes w 0) (transport w 0) = None"
  shows "effects self url invoice a w w' (Suc n)"
proof -
  have tr: "transport w2 = (\<lambda>k. transport w (Suc k))"
    and es: "escapes w2 = (\<lambda>k. escapes w (Suc k))"
    and sl: "sleep_limit w2 = sleep_limit w"
    and tc: "trace w2 = trace w @ Post url invoice (timeout self) #
               (if a < max_retries self then [Sleep (pause self a w 0)] else [])"
    using ad by (simp_all add: advanced_def)
  have rn: "rand w2 = (\<lambda>k. rand w (Suc k))" if "0 < n"
    using ad n that by (simp add: advanced_def)
  have ok: "0 \<le> pause self a w 0 \<and> pause self a w 0 \<le> sleep_limit w" if "0 < n"
    using ad n that by (simp add: advanced_def)
  have ps: "pause self (a + 1) w2 j = pause self a w (Suc j)" if "0 < n" for j
  proof -
    have "pause self (a + 1) w2 j = pause self (a + 1) (w\<lparr>rand := (\<lambda>k. rand w (Suc k))\<rparr>) j"
      using rn[OF that] by (intro pause_cong) simp
    then show ?thesis by (simp add: pause_Suc)
  qed
  have ev: "new_events self url invoice (a + 1) w2 n
              = new_events self url invoice (a + 1) (w\<lparr>rand := (\<lambda>k. rand w (Suc k))\<rparr>) n"
  proof (cases "0 < n")
    case True
    with rn show ?thesis by (intro new_events_rand_cong) simp
  next
    case False
    then show ?thesis by (simp add: new_events_0)
  qed
  from ef have "trace w' = trace w2 @ new_events self url invoice (a + 1) w2 n"
    by (simp add: effects_def)
  with tc n ev have t: "trace w' = trace w @ new_events self url invoice a w (Suc n)"
    by (simp add: new_events_Suc)
  have each: "verdict (transport w i) = None \<and> uncaught (escapes w i) (transport w i) = None
          \<and> a + int i < max_retries self
          \<and> 0 \<le> pause self a w i \<and> pause self a w i \<le> sleep_limit w" if i: "Suc i < Suc n" for i
  proof (cases i)
    case 0
    from i have "0 < n" by simp
    with 0 v u n ok show ?thesis by simp
  next
    case (Suc j)
    with i have j: "Suc j < n" by simp
    then have pos: "0 < n" by simp
    from ef j have "verdict (transport w2 j) = None \<and> uncaught (escapes w2 j) (transport w2 j) = None
          \<and> a + 1 + int j < max_retries self
          \<and> 0 \<le> pause self (a + 1) w2 j \<and> pause self (a + 1) w2 j \<le> sleep_limit w2"
      by (simp add: effects_def)
    with Suc tr es sl ps[OF pos] show ?thesis by simp
  qed
  from t each show ?thesis unfolding effects_def by blast
qed

lemma run_shape_Suc:
  assumes sh: "run_shape self url invoice (a + 1) (lg @ [logged a (transport w 0)]) w2 st lg' w' n"
    and ad: "advanced self url invoice a w w2"
    and a: "a < max_retries self + 1"
    and v: "verdict (transport w 0) = None"
    and u: "uncaught (escapes w 0) (transport w 0) = None"
  shows "run_shape self url invoice a lg w st lg' w' (Suc n)"
proof -
  have tr: "transport w2 = (\<lambda>k. transport w (Suc k))"
    and es: "escapes w2 = (\<lambda>k. escapes w (Suc k))"
    using ad by (simp_all add: advanced_def)
  have n0: "0 < n \<longleftrightarrow> a < max_retries self"
    using sh a by (auto simp: run_shape_def)
  have lg': "lg' = lg @ map (\<lambda>i. logged (a + int i) (transport w i)) [0..<Suc n]"
    using sh tr unfolding run_shape_def map_upt_Suc by (simp add: add.assoc)
  have nonterm: "\<forall>i. Suc i < Suc n \<longrightarrow> verdict (transport w i) = None"
  proof (intro allI impI)
    fix i assume "Suc i < Suc n"
    show "verdict (transport w i) = None"
    proof (cases i)
      case 0 with v show ?thesis by simp
    next
      case (Suc j)
      with \<open>Suc i < Suc n\<close> sh tr show ?thesis by (auto simp: run_shape_def)
    qed
  qed
  have last: "(0 < Suc n \<and> verdict (transport w (Suc n - 1)) = Some st)
        \<or> (st = ''FAILED'' \<and> (\<forall>i<Suc n. verdict (transport w i) = None)
            \<and> int (Suc n) = max 0 (max_retries self + 1 - a))"
  proof -
    from sh have "(0 < n \<and> verdict (transport w2 (n - 1)) = Some st)
        \<or> (st = ''FAILED'' \<and> (\<forall>i<n. verdict (transport w2 i) = None)
            \<and> int n = max 0 (max_retries self + 1 - (a + 1)))"
      by (simp add: run_shape_def)
    then show ?thesis
    proof
      assume "0 < n \<and> verdict (transport w2 (n - 1)) = Some st"
      then show ?thesis using tr by (cases n) auto
    next
      assume f: "st = ''FAILED'' \<and> (\<forall>i<n. verdict (transport w2 i) = None)
            \<and> int n = max 0 (max_retries self + 1 - (a + 1))"
      have "\<forall>i<Suc n. verdict (transport w i) = None"
      proof (intro allI impI)
        fix i assume "i < Suc n"
        then show "verdict (transport w i) = None"
          using v f tr by (cases i) auto
      qed
      moreover have "int (Suc n) = max 0 (max_retries self + 1 - a)"
        using f a by simp
      ultimately show ?thesis using f by blast
    qed
  qed
  have bound: "int (Suc n) \<le> max 0 (max_retries self + 1 - a)"
    using sh a by (simp add: run_shape_def)
  have unc: "\<forall>i<Suc n. uncaught (escapes w i) (transport w i) = None"
  proof (intro allI impI)
    fix i assume "i < Suc n"
    then show "uncaught (escapes w i) (transport w i) = None"
      using u sh tr es by (cases i) (auto simp: run_shape_def)
  qed
  have ef: "effects self url invoice a w w' (Suc n)"
    using sh ad n0 v u by (intro effects_Suc) (simp_all add: run_shape_def)
  show ?thesis
    unfolding run_shape_def using lg' nonterm last bound unc ef by blast
qed

lemma submit_loop_shape:
  "submit_loop self url invoice a lg w = (Inr (st, lg'), w') \<Longrightarrow>
   \<exists>n. run_shape self url invoice a lg w st lg' w' n"
proof (induction k \<equiv> "nat (max_retries self + 1 - a)" arbitrary: a lg w)
  case 0
  then have "\<not> a < max_retries self + 1" by simp
  with "0.prems" have "st = ''FAILED''" "lg' = lg" "w' = w"
    by (simp_all add: submit_loop_done)
  with \<open>\<not> a < max_retries self + 1\<close> have "run_shape self url invoice a lg w st lg' w' 0"
    by (simp add: run_shape_def effects_0)
  then show ?case ..
next
  case (Suc k)
  then have a: "a < max_retries self + 1" by simp
  let ?w1 = "posted url invoice (timeout self) w"
  let ?lg1 = "lg @ [logged a (transport w 0)]"
  have u: "uncaught (escapes w 0) (transport w 0) = None"
  proof (cases "uncaught (escapes w 0) (transport w 0)")
    case None then show ?thesis .
  next
    case (Some e)
    with a Suc.prems show ?thesis by (simp add: submit_loop_step)
  qed
  show ?case
  proof (cases "verdict (transport w 0)")
    case (Some s)
    with a u Suc.prems have "st = s" "lg' = ?lg1" "w' = ?w1"
      by (simp_all add: submit_loop_step)
    moreover have "effects self url invoice a w ?w1 (Suc 0)"
      by (intro effects_1) (simp add: posted_def)
    ultimately have "run_shape self url invoice a lg w st lg' w' 1"
      using a Some u by (simp add: run_shape_def)
    then show ?thesis ..
  next
    case None
    from a u None Suc.prems obtain v w2 where
      bo: "backoff self a ?w1 = (Inr v, w2)" and
      rec: "submit_loop self url invoice (a + 1) ?lg1 w2 = (Inr (st, lg'), w')"
      by (auto simp: submit_loop_step split: prod.splits sum.splits)
    have "k = nat (max_retries self + 1 - (a + 1))" using Suc.hyps(2) by simp
    from Suc.hyps(1)[OF this rec] obtain n where
      sh: "run_shape self url invoice (a + 1) ?lg1 w2 st lg' w' n" ..
    have "run_shape self url invoice a lg w st lg' w' (Suc n)"
      using sh advanced_backoff[OF bo] a None u by (rule run_shape_Suc)
    then show ?thesis ..
  qed
qed

lemma fault_shape_Suc:
  assumes sh: "fault_shape self url invoice (a + 1) w2 e w' n"
    and ad: "advanced self url invoice a w w2"
    and v: "verdict (transport w 0) = None"
    and u: "uncaught (escapes w 0) (transport w 0) = None"
  shows "fault_shape self url invoice a w e w' (Suc n)"
proof -
  have tr: "transport w2 = (\<lambda>k. transport w (Suc k))"
    and es: "escapes w2 = (\<lambda>k. escapes w (Suc k))"
    and sl: "sleep_limit w2 = sleep_limit w"
    using ad by (simp_all add: advanced_def)
  from sh have n: "0 < n" and le: "a + 1 + int n \<le> max_retries self + 1"
    by (simp_all add: fault_shape_def)
  then have lt: "a < max_retries self" by simp
  obtain m where m: "n = Suc m" using n by (cases n) auto
  have rn: "rand w2 = (\<lambda>k. rand w (Suc k))" using ad lt by (simp add: advanced_def)
  have ps: "pause self (a + 1) w2 m = pause self a w (Suc m)"
  proof -
    have "pause self (a + 1) w2 m = pause self (a + 1) (w\<lparr>rand := (\<lambda>k. rand w (Suc k))\<rparr>) m"
      using rn by (intro pause_cong) simp
    then show ?thesis by (simp add: pause_Suc)
  qed
  have nonterm: "\<forall>i<Suc n. verdict (transport w i) = None"
  proof (intro allI impI)
    fix i assume "i < Suc n"
    then show "verdict (transport w i) = None"
      using v sh tr by (cases i) (auto simp: fault_shape_def)
  qed
  have cause: "uncaught (escapes w (Suc n - 1)) (transport w (Suc n - 1)) = Some e
        \<or> (uncaught (escapes w (Suc n - 1)) (transport w (Suc n - 1)) = None
            \<and> a + int (Suc n) \<le> max_retries self
            \<and> (pause self a w (Suc n - 1) < 0
                  \<and> e = ValueError ''sleep length must be non-negative''
                \<or> sleep_limit w < pause self a w (Suc n - 1)
                  \<and> e = OverflowError ''timestamp out of range for platform time_t''))"
    using sh tr es sl ps unfolding fault_shape_def m by (simp add: add.assoc)
  have ef: "effects self url invoice a w w' (Suc n)"
    using sh ad n lt v u by (intro effects_Suc) (simp_all add: fault_shape_def)
  from le have "a + int (Suc n) \<le> max_retries self + 1" by simp
  with nonterm cause ef show ?thesis unfolding fault_shape_def by simp
qed

lemma submit_loop_fault_shape:
  "submit_loop self url invoice a lg w = (Inl e, w') \<Longrightarrow>
   \<exists>n. fault_shape self url invoice a w e w' n"
proof (induction k \<equiv> "nat (max_retries self + 1 - a)" arbitrary: a lg w)
  case 0
  then have "\<not> a < max_retries self + 1" by simp
  with "0.prems" show ?case by (simp add: submit_loop_done)
next
  case (Suc k)
  then have a: "a < max_retries self + 1" by simp
  let ?w1 = "posted url invoice (timeout self) w"
  let ?lg1 = "lg @ [logged a (transport w 0)]"
  have ef1: "effects self url invoice a w ?w1 (Suc 0)"
    by (intro effects_1) (simp add: posted_def)
  show ?case
  proof (cases "uncaught (escapes w 0) (transport w 0)")
    case (Some e2)
    with a Suc.prems have "e = e2" "w' = ?w1" by (simp_all add: submit_loop_step)
    with Some a ef1 uncaught_verdict[OF Some]
    have "fault_shape self url invoice a w e w' 1" by (simp add: fault_shape_def)
    then show ?thesis ..
  next
    case None
    show ?thesis
    proof (cases "verdict (transport w 0)")
      case (Some s)
      with a None Suc.prems show ?thesis by (simp add: submit_loop_step)
    next
      case vn: None
      show ?thesis
      proof (cases "backoff self a ?w1")
        case (Pair res w2)
        show ?thesis
        proof (cases res)
          case (Inl e2)
          with Pair a None vn Suc.prems have "e = e2" "w' = w2" by (simp_all add: submit_loop_step)
          with Pair Inl have bo: "backoff self a ?w1 = (Inl e, w')" by simp
          have p: "pause self a ?w1 0 = pause self a w 0"
            by (simp add: pause_def draw_def posted_def)
          note b = backoff_Inl[OF bo]
          from b(2) have "trace w' = trace w @ [Post url invoice (timeout self)]"
            by (simp add: posted_def)
          then have "effects self url invoice a w w' (Suc 0)" by (rule effects_1)
          moreover from b(3) p
          have "pause self a w 0 < 0 \<and> e = ValueError ''sleep length must be non-negative''
                \<or> sleep_limit w < pause self a w 0
                  \<and> e = OverflowError ''timestamp out of range for platform time_t''"
            by (simp add: posted_def)
          ultimately have "fault_shape self url invoice a w e w' 1"
            using b(1) None vn by (simp add: fault_shape_def)
          then show ?thesis ..
        next
          case (Inr v)
          with Pair a None vn Suc.prems
          have rec: "submit_loop self url invoice (a + 1) ?lg1 w2 = (Inl e, w')"
            by (simp add: submit_loop_step)
          have "k = nat (max_retries self + 1 - (a + 1))" using Suc.hyps(2) by simp
          from Suc.hyps(1)[OF this rec] obtain n where
            sh: "fault_shape self url invoice (a + 1) w2 e w' n" ..
          from Pair Inr have bo: "backoff self a ?w1 = (Inr v, w2)" by simp
          have "fault_shape self url invoice a w e w' (Suc n)"
            using sh advanced_backoff[OF bo] vn None by (rule fault_shape_Suc)
          then show ?thesis ..
        qed
      qed
    qed
  qed
qed

lemma submit_loop_returns:
  assumes "\<forall>i. uncaught (escapes w i) (transport w i) = None"
    and "\<forall>i. a + int i < max_retries self \<longrightarrow>
               0 \<le> pause self a w i \<and> pause self a w i \<le> sleep_limit w"
  shows "\<exists>st lg' w'. submit_loop self url invoice a lg w = (Inr (st, lg'), w')"
  using assms
proof (induction k \<equiv> "nat (max_retries self + 1 - a)" arbitrary: a lg w)
  case 0
  then have "\<not> a < max_retries self + 1" by simp
  then show ?case by (simp add: submit_loop_done)
next
  case (Suc k)
  then have a: "a < max_retries self + 1" by simp
  let ?w1 = "posted url invoice (timeout self) w"
  let ?lg1 = "lg @ [logged a (transport w 0)]"
  have u: "uncaught (escapes w 0) (transport w 0) = None" using Suc.prems(1) by blast
  show ?case
  proof (cases "verdict (transport w 0)")
    case (Some s)
    with a u show ?thesis by (simp add: submit_loop_step)
  next
    case None
    have p: "pause self a ?w1 0 = pause self a w 0"
      by (simp add: pause_def draw_def posted_def)
    have "a < max_retries self \<longrightarrow> 0 \<le> pause self a ?w1 0 \<and> pause self a ?w1 0 \<le> sleep_limit ?w1"
      using Suc.prems(2)[rule_format, of 0] p by (simp add: posted_def)
    from backoff_accepted[OF this] obtain w2 where bo: "backoff self a ?w1 = (Inr (), w2)" ..
    note ad = advanced_backoff[OF bo]
    have un: "\<forall>i. uncaught (escapes w2 i) (transport w2 i) = None"
      using ad Suc.prems(1) by (simp add: advanced_def)
    have ok: "\<forall>i. a + 1 + int i < max_retries self \<longrightarrow>
               0 \<le> pause self (a + 1) w2 i \<and> pause self (a + 1) w2 i \<le> sleep_limit w2"
    proof (intro allI impI)
      fix i assume i: "a + 1 + int i < max_retries self"
      then have lt: "a < max_retries self" by simp
      with ad have rn: "rand w2 = (\<lambda>k. rand w (Suc k))" and sl: "sleep_limit w2 = sleep_limit w"
        by (simp_all add: advanced_def)
      have "pause self (a + 1) w2 i = pause self (a + 1) (w\<lparr>rand := (\<lambda>k. rand w (Suc k))\<rparr>) i"
        using rn by (intro pause_cong) simp
      then have "pause self (a + 1) w2 i = pause self a w (Suc i)" by (simp add: pause_Suc)
      moreover from i have "a + int (Suc i) < max_retries self" by simp
      ultimately show "0 \<le> pause self (a + 1) w2 i \<and> pause self (a + 1) w2 i \<le> sleep_limit w2"
        using Suc.prems(2) sl by metis
    qed
    have "k = nat (max_retries self + 1 - (a + 1))" using Suc.hyps(2) by simp
    from Suc.hyps(1)[OF this un ok]
    obtain st lg' w' where "submit_loop self url invoice (a + 1) ?lg1 w2 = (Inr (st, lg'), w')"
      by blast
    with a u None bo show ?thesis by (simp add: submit_loop_step)
  qed
qed

lemma count_posts_append: "count_posts (xs @ ys) = count_posts xs + count_posts ys"
  by (induction xs) (auto split: event.splits)

lemma count_posts_new_events: "count_posts (new_events self url invoice a w n) = n"
proof (induction n arbitrary: a w)
  case 0
  show ?case by (simp add: new_events_0)
next
  case (Suc n)
  then show ?case by (simp add: new_events_Suc count_posts_append)
qed

lemma pause_from_1:
  "pause self 1 w i = backoff_base self ^ Suc i * (1 / 2 + (3 / 2 - 1 / 2) * rand w i)"
proof -
  have "nat (1 + int i) = Suc i" by simp
  then show ?thesis unfolding pause_def draw_def by simp
qed

lemma new_events_from_1:
  "new_events self url invoice 1 w n =
     concat (map (\<lambda>i. Post url invoice (timeout self) #
                        (if Suc i < n
                         then [Sleep (backoff_base self ^ Suc i
                                        * (1 / 2 + (3 / 2 - 1 / 2) * rand w i))]
                         else []))
                 [0..<n])"
  unfolding new_events_def by (simp only: pause_from_1)

lemma pause_bounds:
  assumes "0 \<le> rand w i" and "rand w i \<le> 1" and "0 \<le> pause self 1 w i"
  shows "backoff_base self ^ Suc i * (1 / 2)
           \<le> backoff_base self ^ Suc i * (1 / 2 + (3 / 2 - 1 / 2) * rand w i)"
    and "backoff_base self ^ Suc i * (1 / 2 + (3 / 2 - 1 / 2) * rand w i)
           \<le> backoff_base self ^ Suc i * (3 / 2)"
proof -
  let ?p = "backoff_base self ^ Suc i"
  let ?d = "1 / 2 + (3 / 2 - 1 / 2) * rand w i"
  have d: "1 / 2 \<le> ?d" "?d \<le> 3 / 2" using assms(1,2) by simp_all
  have p: "0 \<le> ?p"
  proof (rule ccontr)
    assume "\<not> 0 \<le> ?p"
    then have "?p < 0" by simp
    moreover have "0 < ?d" using d(1) by simp
    ultimately have "?p * ?d < 0" by (rule mult_neg_pos)
    with assms(3) show False by (simp only: pause_from_1)
  qed
  show "?p * (1 / 2) \<le> ?p * ?d" using d(1) p by (rule mult_left_mono)
  show "?p * ?d \<le> ?p * (3 / 2)" using d(2) p by (rule mult_left_mono)
qed

lemma pause_accepted:
  assumes rnd: "\<forall>n. 0 \<le> rand w n \<and> rand w n \<le> 1" and b: "0 \<le> backoff_base self"
    and lim: "\<forall>k. 1 \<le> k \<and> int k < max_retries self
                 \<longrightarrow> backoff_base self ^ k * (3 / 2) \<le> sleep_limit w"
  shows "\<forall>i. 1 + int i < max_retries self \<longrightarrow>
               0 \<le> pause self 1 w i \<and> pause self 1 w i \<le> sleep_limit w"
proof (intro allI impI)
  fix i assume i: "1 + int i < max_retries self"
  let ?p = "backoff_base self ^ Suc i"
  let ?d = "1 / 2 + (3 / 2 - 1 / 2) * rand w i"
  from rnd have r: "0 \<le> rand w i" "rand w i \<le> 1" by simp_all
  then have d: "0 \<le> ?d" "?d \<le> 3 / 2" by simp_all
  have p: "0 \<le> ?p" using b by (rule zero_le_power)
  have nonneg: "0 \<le> ?p * ?d" using p d(1) by (rule mult_nonneg_nonneg)
  have "?p * ?d \<le> ?p * (3 / 2)" using d(2) p by (rule mult_left_mono)
  moreover have "?p * (3 / 2) \<le> sleep_limit w"
  proof -
    from i have "1 \<le> Suc i \<and> int (Suc i) < max_retries self" by simp
    with lim show ?thesis by blast
  qed
  ultimately have "?p * ?d \<le> sleep_limit w" by simp
  with nonneg show "0 \<le> pause self 1 w i \<and> pause self 1 w i \<le> sleep_limit w"
    by (simp only: pause_from_1)
qed

lemma submit_loop_first_post:
  assumes "a < max_retries self + 1"
  shows "\<exists>evs. trace (snd (submit_loop self url invoice a lg w))
                 = trace w @ Post url invoice (timeout self) # evs"
proof (cases "submit_loop self url invoice a lg w")
  case (Pair res w')
  show ?thesis
  proof (cases res)
    case (Inl e)
    with Pair obtain n where sh: "fault_shape self url invoice a w e w' n"
      by (blast dest: submit_loop_fault_shape)
    then have "0 < n" by (simp add: fault_shape_def)
    then obtain m where "n = Suc m" by (cases n) auto
    with sh have "trace w' = trace w @ new_events self url invoice a w (Suc m)"
      by (simp add: fault_shape_def effects_def)
    with Pair show ?thesis by (simp add: new_events_Suc)
  next
    case (Inr p)
    obtain st lg' where "p = (st, lg')" by (cases p)
    with Pair Inr obtain n where sh: "run_shape self url invoice a lg w st lg' w' n"
      by (blast dest: submit_loop_shape)
    with assms have "0 < n" by (simp add: run_shape_def)
    then obtain m where "n = Suc m" by (cases n) auto
    with sh have "trace w' = trace w @ new_events self url invoice a w (Suc m)"
      by (simp add: run_shape_def effects_def)
    with Pair show ?thesis by (simp add: new_events_Suc)
  qed
qed

section \<open>Runs of submit\_invoice\<close>

lemma submit_invoice_run:
  assumes run: "submit_invoice self invoice mode w = (Inr (st, lg), w')"
  shows log_upper: "int (length lg) \<le> max 0 (max_retries self)"
    and log_nonempty: "1 \<le> max_retries self \<Longrightarrow> lg \<noteq> []"
    and log_entry: "i < length lg \<Longrightarrow> lg ! i = logged (int i + 1) (transport w i)"
    and log_earlier: "Suc i < length lg \<Longrightarrow> verdict (transport w i) = None"
    and log_last: "(lg \<noteq> [] \<and> verdict (transport w (length lg - 1)) = Some st)
        \<or> (st = ''FAILED'' \<and> (\<forall>i<length lg. verdict (transport w i) = None)
            \<and> int (length lg) = max 0 (max_retries self))"
    and run_effects: "effects self (base_url self @ ''/tax/submit?mode='' @ mode) invoice 1 w w'
                        (length lg)"
proof -
  let ?url = "base_url self @ ''/tax/submit?mode='' @ mode"
  from run obtain n where sh: "run_shape self ?url invoice 1 [] w st lg w' n"
    unfolding submit_invoice_def Let_def by (blast dest: submit_loop_shape)
  have lg: "lg = map (\<lambda>i. logged (1 + int i) (transport w i)) [0..<n]"
    using sh by (simp add: run_shape_def)
  then have n: "length lg = n" by simp
  show "int (length lg) \<le> max 0 (max_retries self)"
    unfolding n using sh by (simp add: run_shape_def)
  show "lg \<noteq> []" if "1 \<le> max_retries self"
  proof -
    from sh that have "0 < n" by (simp add: run_shape_def)
    with n show ?thesis by auto
  qed
  show "lg ! i = logged (int i + 1) (transport w i)" if "i < length lg"
  proof -
    from that n have "i < n" by simp
    then have "map (\<lambda>i. logged (1 + int i) (transport w i)) [0..<n] ! i
                 = logged (1 + int i) (transport w i)" by simp
    with lg show ?thesis by (simp add: add.commute)
  qed
  show "verdict (transport w i) = None" if "Suc i < length lg"
    using that sh unfolding n by (simp add: run_shape_def)
  show "(lg \<noteq> [] \<and> verdict (transport w (length lg - 1)) = Some st)
        \<or> (st = ''FAILED'' \<and> (\<forall>i<length lg. verdict (transport w i) = None)
            \<and> int (length lg) = max 0 (max_retries self))"
  proof -
    from sh have "(0 < n \<and> verdict (transport w (n - 1)) = Some st)
        \<or> (st = ''FAILED'' \<and> (\<forall>i<n. verdict (transport w i) = None)
            \<and> int n = max 0 (max_retries self))"
      by (simp add: run_shape_def)
    moreover have "lg \<noteq> [] \<longleftrightarrow> 0 < n" using n by auto
    ultimately show ?thesis unfolding n by blast
  qed
  show "effects self ?url invoice 1 w w' (length lg)"
    unfolding n using sh by (simp add: run_shape_def)
qed

lemma run_trace:
  assumes "submit_invoice self invoice mode w = (Inr (st, lg), w')"
  shows "trace w' = trace w @
           new_events self (base_url self @ ''/tax/submit?mode='' @ mode) invoice 1 w (length lg)"
  using run_effects[OF assms] by (simp add: effects_def)

lemma submit_invoice_status:
  assumes run: "submit_invoice self invoice mode w = (Inr (st, lg), w')"
  shows "st = ''SUBMITTED'' \<or> st = ''FAILED''"
  using log_last[OF run] by (auto simp: verdict_Some)

lemma submit_invoice_returns:
  assumes "\<forall>n. escapes w n = None"
    and "\<forall>n. 0 \<le> rand w n \<and> rand w n \<le> 1" and "0 \<le> backoff_base self"
    and "\<forall>k. 1 \<le> k \<and> int k < max_retries self
            \<longrightarrow> backoff_base self ^ k * (3 / 2) \<le> sleep_limit w"
  shows "\<exists>st lg w'. submit_invoice self invoice mode w = (Inr (st, lg), w')"
proof -
  have "\<forall>i. uncaught (escapes w i) (transport w i) = None" using assms(1) by simp
  then show ?thesis
    unfolding submit_invoice_def Let_def
    using pause_accepted[OF assms(2,3,4)] by (rule submit_loop_returns)
qed

lemma submit_invoice_fault_shape:
  assumes "submit_invoice self invoice mode w = (Inl e, w')"
  shows "\<exists>n. fault_shape self (base_url self @ ''/tax/submit?mode='' @ mode) invoice 1 w e w' n"
  using assms unfolding submit_invoice_def Let_def by (rule submit_loop_fault_shape)


lemma submit_invoice_posts:
  assumes "submit_invoice self invoice mode w = (Inr (st, lg), w')"
  shows "count_posts (trace w') = count_posts (trace w) + length lg"
  using run_trace[OF assms] by (simp add: count_posts_append count_posts_new_events)

lemma logged_response:
  "decodable r \<Longrightarrow> attempt (logged k (Inr r)) = k \<and> status_code (logged k (Inr r)) = Some (r_status_code r)"
  by (auto simp: logged_def decodable_def split: sum.splits)

lemma submit_invoice_never_request_exception:
  "fst (submit_invoice self invoice mode w) \<noteq> Inl (RequestException msg)"
proof
  assume a: "fst (submit_invoice self invoice mode w) = Inl (RequestException msg)"
  obtain res w' where r: "submit_invoice self invoice mode w = (res, w')"
    by (cases "submit_invoice self invoice mode w")
  with a have "submit_invoice self invoice mode w = (Inl (RequestException msg), w')" by simp
  from submit_invoice_fault_shape[OF this] obtain n where
    "fault_shape self (base_url self @ ''/tax/submit?mode='' @ mode) invoice 1 w
       (RequestException msg) w' n" ..
  then show False by (auto simp: fault_shape_def dest: uncaught_other)
qed

lemma logged_failure:
  "logged k (Inl msg) = \<lparr>attempt = k, status_code = None, response = PyStr msg\<rparr>"
  by (simp add: logged_def)

lemma submit_loop_first_200:
  assumes "1 \<le> max_retries self" and "r_status_code r = 200" and "decodable r"
    and "transport w 0 = Inr r"
  shows "submit_loop self url invoice 1 [] w
           = (Inr (''SUBMITTED'', [logged 1 (Inr r)]), posted url invoice (timeout self) w)"
proof -
  from assms have "verdict (transport w 0) = Some ''SUBMITTED''" by (simp add: verdict_def)
  moreover from assms(1) have "(1::int) < max_retries self + 1" by simp
  moreover from assms have "uncaught (escapes w 0) (transport w 0) = None"
    by (simp add: uncaught_response)
  ultimately show ?thesis using assms(4) by (simp add: submit_loop_step)
qed

text \<open>Unfolding the loop on a concrete world.\<close>

lemmas eval_defs = submit_invoice_def submit_loop_step submit_loop_done verdict_def logged_def
  decodable_def uncaught_def backoff_eq pause_def draw_def posted_def always_def first_then_def
  always_at_end_point_def always_escaping_def init_def init_default_def Let_def

section \<open>Length of the log and final status\<close>

text \<open>
  Claim C1, as amended. For every call with \<open>max_retries \<ge> 1\<close>: whenever
  \<^verbatim>\<open>submit_invoice\<close> returns, the returned log has between 1 and \<open>max_retries\<close> entries and
  the returned status is \<^verbatim>\<open>SUBMITTED\<close> or \<^verbatim>\<open>FAILED\<close>; and it returns whenever
  \<^verbatim>\<open>requests.post\<close> and \<^verbatim>\<open>response.json()\<close> raise nothing but a \<^verbatim>\<open>RequestException\<close>, the
  backoff base is not negative, and 1.5 times each power \<open>backoff_base ^ k\<close> with
  \<open>1 \<le> k < max_retries\<close> is a duration that \<^verbatim>\<open>time.sleep\<close> accepts.
\<close>

theorem submit_invoice_log_length:
  assumes m: "1 \<le> max_retries self"
  shows "(\<forall>st lg w'. submit_invoice self invoice mode w = (Inr (st, lg), w') \<longrightarrow>
            1 \<le> length lg \<and> int (length lg) \<le> max_retries self
            \<and> (st = ''SUBMITTED'' \<or> st = ''FAILED''))
       \<and> ((\<forall>n. escapes w n = None) \<and> (\<forall>n. 0 \<le> rand w n \<and> rand w n \<le> 1)
            \<and> 0 \<le> backoff_base self
            \<and> (\<forall>k. 1 \<le> k \<and> int k < max_retries self
                   \<longrightarrow> backoff_base self ^ k * (3 / 2) \<le> sleep_limit w)
          \<longrightarrow> (\<exists>st lg w'. submit_invoice self invoice mode w = (Inr (st, lg), w')))"
proof -
  have p1: "1 \<le> length lg \<and> int (length lg) \<le> max_retries self
            \<and> (st = ''SUBMITTED'' \<or> st = ''FAILED'')"
    if run: "submit_invoice self invoice mode w = (Inr (st, lg), w')" for st lg w'
  proof -
    from log_nonempty[OF run m] have "1 \<le> length lg" by (cases lg) simp_all
    moreover from log_upper[OF run] m have "int (length lg) \<le> max_retries self" by simp
    moreover from run have "st = ''SUBMITTED'' \<or> st = ''FAILED''" by (rule submit_invoice_status)
    ultimately show ?thesis by blast
  qed
  have p2: "\<exists>st lg w'. submit_invoice self invoice mode w = (Inr (st, lg), w')"
    if "(\<forall>n. escapes w n = None) \<and> (\<forall>n. 0 \<le> rand w n \<and> rand w n \<le> 1)
            \<and> 0 \<le> backoff_base self
            \<and> (\<forall>k. 1 \<le> k \<and> int k < max_retries self
                   \<longrightarrow> backoff_base self ^ k * (3 / 2) \<le> sleep_limit w)"
    using that by (intro submit_invoice_returns) blast+
  from p1 p2 show ?thesis by blast
qed

theorem submit_invoice_log_length_witness:
  "1 \<le> max_retries (init_default ''http://tax.example'')
   \<and> (\<forall>n. escapes (always (Inl ''Connection refused'')) n = None)
   \<and> (\<forall>n. 0 \<le> rand (always (Inl ''Connection refused'')) n
          \<and> rand (always (Inl ''Connection refused'')) n \<le> 1)
   \<and> 0 \<le> backoff_base (init_default ''http://tax.example'')
   \<and> backoff_base (init_default ''http://tax.example'') ^ 1 * (3 / 2)
        \<le> sleep_limit (always (Inl ''Connection refused''))
   \<and> backoff_base (init_default ''http://tax.example'') ^ 2 * (3 / 2)
        \<le> sleep_limit (always (Inl ''Connection refused''))
   \<and> (\<exists>st lg w'. submit_invoice (init_default ''http://tax.example'') ''{}'' ''success''
                      (always (Inl ''Connection refused'')) = (Inr (st, lg), w')
           \<and> 1 \<le> length lg \<and> int (length lg) \<le> max_retries (init_default ''http://tax.example'')
           \<and> (st = ''SUBMITTED'' \<or> st = ''FAILED''))"
proof -
  let ?c = "init_default ''http://tax.example''"
  let ?w = "always (Inl ''Connection refused'')"
  have m: "1 \<le> max_retries ?c" by (simp add: init_default_def init_def)
  have e: "\<forall>n. escapes ?w n = None" by (simp add: always_def)
  have r: "\<forall>n. 0 \<le> rand ?w n \<and> rand ?w n \<le> 1" by (simp add: always_def)
  have b: "0 \<le> backoff_base ?c" by (simp add: init_default_def init_def)
  have l1: "backoff_base ?c ^ 1 * (3 / 2) \<le> sleep_limit ?w"
    and l2: "backoff_base ?c ^ 2 * (3 / 2) \<le> sleep_limit ?w"
    by (simp_all add: init_default_def init_def always_def)
  have l: "\<forall>k. 1 \<le> k \<and> int k < max_retries ?c \<longrightarrow> backoff_base ?c ^ k * (3 / 2) \<le> sleep_limit ?w"
  proof (intro allI impI)
    fix k :: nat assume "1 \<le> k \<and> int k < max_retries ?c"
    then have "k = 1 \<or> k = 2" by (auto simp: init_default_def init_def)
    with l1 l2 show "backoff_base ?c ^ k * (3 / 2) \<le> sleep_limit ?w" by auto
  qed
  from submit_invoice_log_length[OF m, of "''{}''" "''success''" ?w] e r b l
  have "\<exists>st lg w'. submit_invoice ?c ''{}'' ''success'' ?w = (Inr (st, lg), w')
           \<and> 1 \<le> length lg \<and> int (length lg) \<le> max_retries ?c
           \<and> (st = ''SUBMITTED'' \<or> st = ''FAILED'')"
    by blast
  with m e r b l1 l2 show ?thesis by blast
qed

text \<open>
  Claim C1 as stated, for every call with \<open>max_retries \<ge> 1\<close>, fails: with
  \<open>max_retries = 2\<close> and the backoff base 1e20 the first attempt receives a 503, the
  backoff computes a duration of 1e20 seconds, and \<^verbatim>\<open>time.sleep\<close> raises
  \<^verbatim>\<open>OverflowError\<close>, which leaves \<^verbatim>\<open>submit_invoice\<close> as an exception.
\<close>

theorem huge_backoff_base_raises:
  "fst (submit_invoice (init ''http://tax.example'' 2 100000000000000000000 5) ''{}'' ''success''
          (always (Inr \<lparr>r_status_code = 503, r_content = [], r_json = Inl []\<rparr>)))
     = Inl (OverflowError ''timestamp out of range for platform time_t'')"
  by (simp add: eval_defs)

section \<open>A client error ends the run\<close>




section \<open>Success on the first attempt\<close>

text \<open>
  Claim C3, as amended. If \<open>max_retries \<ge> 1\<close> and the first attempt receives a response with
  status code 200 whose body is empty or is accepted by \<^verbatim>\<open>response.json()\<close>, then
  \<^verbatim>\<open>submit_invoice\<close> returns \<^verbatim>\<open>SUBMITTED\<close> with a log of exactly one entry. Whenever
  \<^verbatim>\<open>submit_invoice\<close> returns \<^verbatim>\<open>SUBMITTED\<close>, the last attempt has received such a response
  with status code 200 and the last entry carries the status code 200.
\<close>

theorem first_attempt_200:
  "(1 \<le> max_retries self \<and> transport w 0 = Inr r \<and> r_status_code r = 200 \<and> decodable r \<longrightarrow>
      (\<exists>e w'. submit_invoice self invoice mode w = (Inr (''SUBMITTED'', [e]), w')
              \<and> attempt e = 1 \<and> status_code e = Some 200))
   \<and> (\<forall>lg w'. submit_invoice self invoice mode w = (Inr (''SUBMITTED'', lg), w') \<longrightarrow>
         lg \<noteq> [] \<and> status_code (last lg) = Some 200
         \<and> (\<exists>r'. transport w (length lg - 1) = Inr r' \<and> r_status_code r' = 200 \<and> decodable r'))"
proof -
  have part1: "\<exists>e w'. submit_invoice self invoice mode w = (Inr (''SUBMITTED'', [e]), w')
              \<and> attempt e = 1 \<and> status_code e = Some 200"
    if h: "1 \<le> max_retries self \<and> transport w 0 = Inr r \<and> r_status_code r = 200 \<and> decodable r"
  proof -
  have "submit_invoice self invoice mode w =
          (Inr (''SUBMITTED'', [logged 1 (Inr r)]),
           posted (base_url self @ ''/tax/submit?mode='' @ mode) invoice (timeout self) w)"
    unfolding submit_invoice_def Let_def using h by (intro submit_loop_first_200) simp_all
  moreover have "attempt (logged 1 (Inr r)) = 1"
    "status_code (logged 1 (Inr r)) = Some 200"
    using h logged_response[of r 1] by simp_all
  ultimately show ?thesis by blast
  qed
  have part2: "lg \<noteq> [] \<and> status_code (last lg) = Some 200
         \<and> (\<exists>r'. transport w (length lg - 1) = Inr r' \<and> r_status_code r' = 200 \<and> decodable r')"
    if run: "submit_invoice self invoice mode w = (Inr (''SUBMITTED'', lg), w')" for lg w'
  proof -
  from log_last[OF run] have ne: "lg \<noteq> []"
    and v: "verdict (transport w (length lg - 1)) = Some ''SUBMITTED''" by auto
  from v obtain r' where r': "transport w (length lg - 1) = Inr r'" "decodable r'"
    "r_status_code r' = 200" by (auto simp: verdict_Some)
  from ne have "length lg - 1 < length lg" by (cases lg) simp_all
  from log_entry[OF run this] r' have "lg ! (length lg - 1) = logged (int (length lg - 1) + 1) (Inr r')"
    by simp
  with ne r' have "status_code (last lg) = Some 200"
    using logged_response[of r' "int (length lg - 1) + 1"] by (simp add: last_conv_nth)
  with ne r' show ?thesis by blast
  qed
  from part1 part2 show ?thesis by blast
qed

theorem first_attempt_200_witness:
  "1 \<le> max_retries (init_default ''http://tax.example'')
   \<and> transport (always (Inr \<lparr>r_status_code = 200, r_content = ''{}'', r_json = Inr ''{}''\<rparr>)) 0
        = Inr \<lparr>r_status_code = 200, r_content = ''{}'', r_json = Inr ''{}''\<rparr>
   \<and> r_status_code \<lparr>r_status_code = 200, r_content = ''{}'', r_json = Inr ''{}''\<rparr> = 200
   \<and> decodable \<lparr>r_status_code = 200, r_content = ''{}'', r_json = Inr ''{}''\<rparr>
   \<and> (\<exists>e w'. submit_invoice (init_default ''http://tax.example'') ''{}'' ''success''
                  (always (Inr \<lparr>r_status_code = 200, r_content = ''{}'', r_json = Inr ''{}''\<rparr>))
                = (Inr (''SUBMITTED'', [e]), w')
              \<and> attempt e = 1 \<and> status_code e = Some 200)"
  using first_attempt_200[of "init_default ''http://tax.example''"
          "always (Inr \<lparr>r_status_code = 200, r_content = ''{}'', r_json = Inr ''{}''\<rparr>)"
          "\<lparr>r_status_code = 200, r_content = ''{}'', r_json = Inr ''{}''\<rparr>" "''{}''" "''success''"]
  by (simp add: init_default_def init_def always_def decodable_def)

text \<open>
  Claim C3 as stated fails: the first attempt (and every later one) receives status code
  200 with a body that \<^verbatim>\<open>response.json()\<close> rejects. The attempts are logged without a
  status code and retried, and the call returns \<^verbatim>\<open>FAILED\<close> with three entries.
\<close>

theorem undecodable_200_is_retried:
  "fst (submit_invoice (init_default ''http://tax.example'') ''{}'' ''success''
          (always (Inr \<lparr>r_status_code = 200, r_content = ''<html>'', r_json = Inl ''Expecting value''\<rparr>)))
     = Inr (''FAILED'',
            [\<lparr>attempt = 1, status_code = None, response = PyStr ''Expecting value''\<rparr>,
             \<lparr>attempt = 2, status_code = None, response = PyStr ''Expecting value''\<rparr>,
             \<lparr>attempt = 3, status_code = None, response = PyStr ''Expecting value''\<rparr>])"
  by (simp add: eval_defs)

section \<open>Exhausted retries\<close>

text \<open>
  Claim C4, as amended. Let \<^verbatim>\<open>requests.post\<close> and \<^verbatim>\<open>response.json()\<close> raise nothing but a
  \<^verbatim>\<open>RequestException\<close>, let the backoff base be not negative, and let 1.5 times each power
  \<open>backoff_base ^ k\<close> with \<open>1 \<le> k < max_retries\<close> be a duration that \<^verbatim>\<open>time.sleep\<close>
  accepts. If every one of the \<open>max_retries\<close> attempts ends in a transport failure or in a
  status code that is neither 200 nor in [400, 500), then \<^verbatim>\<open>submit_invoice\<close> raises no
  exception and returns \<^verbatim>\<open>FAILED\<close> with a log of exactly \<open>max_retries\<close> entries (no entry
  when \<open>max_retries\<close> is negative).
\<close>

theorem exhausted_retries:
  assumes e: "\<forall>n. escapes w n = None"
    and u: "\<forall>n. 0 \<le> rand w n \<and> rand w n \<le> 1"
    and b: "0 \<le> backoff_base self"
    and l: "\<forall>k. 1 \<le> k \<and> int k < max_retries self
               \<longrightarrow> backoff_base self ^ k * (3 / 2) \<le> sleep_limit w"
    and nt: "\<forall>k. int k < max_retries self \<longrightarrow>
               (case transport w k of
                  Inl msg \<Rightarrow> True
                | Inr r \<Rightarrow> r_status_code r \<noteq> 200
                          \<and> \<not> (400 \<le> r_status_code r \<and> r_status_code r < 500))"
  shows "\<exists>lg w'. submit_invoice self invoice mode w = (Inr (''FAILED'', lg), w')
           \<and> length lg = nat (max_retries self)"
proof -
  from submit_invoice_returns[OF e u b l] obtain st lg w' where
    run: "submit_invoice self invoice mode w = (Inr (st, lg), w')" by blast
  have none: "verdict (transport w k) = None" if "k < length lg" for k
  proof -
    from that log_upper[OF run] have "int k < max_retries self" by simp
    with nt have "case transport w k of
                  Inl msg \<Rightarrow> True
                | Inr r \<Rightarrow> r_status_code r \<noteq> 200
                          \<and> \<not> (400 \<le> r_status_code r \<and> r_status_code r < 500)" by blast
    then show ?thesis by (auto simp: verdict_None split: sum.splits)
  qed
  from log_last[OF run] have "st = ''FAILED'' \<and> int (length lg) = max 0 (max_retries self)"
  proof
    assume "lg \<noteq> [] \<and> verdict (transport w (length lg - 1)) = Some st"
    moreover then have "length lg - 1 < length lg" by (cases lg) simp_all
    ultimately show ?thesis using none by fastforce
  next
    assume "st = ''FAILED'' \<and> (\<forall>i<length lg. verdict (transport w i) = None)
            \<and> int (length lg) = max 0 (max_retries self)"
    then show ?thesis by simp
  qed
  then have "st = ''FAILED''" "length lg = nat (max_retries self)" by auto
  with run show ?thesis by blast
qed

theorem exhausted_retries_witness:
  "(\<forall>n. escapes (always (Inl ''Connection refused'')) n = None)
   \<and> (\<forall>n. 0 \<le> rand (always (Inl ''Connection refused'')) n
          \<and> rand (always (Inl ''Connection refused'')) n \<le> 1)
   \<and> 0 \<le> backoff_base (init ''http://tax.example'' 2 2 5)
   \<and> backoff_base (init ''http://tax.example'' 2 2 5) ^ 1 * (3 / 2)
        \<le> sleep_limit (always (Inl ''Connection refused''))
   \<and> (\<forall>k. transport (always (Inl ''Connection refused'')) k = Inl ''Connection refused'')
   \<and> (\<exists>lg w'. submit_invoice (init ''http://tax.example'' 2 2 5) ''{}'' ''success''
                  (always (Inl ''Connection refused'')) = (Inr (''FAILED'', lg), w')
           \<and> length lg = nat (max_retries (init ''http://tax.example'' 2 2 5)))"
proof -
  let ?c = "init ''http://tax.example'' 2 2 5"
  let ?w = "always (Inl ''Connection refused'')"
  have e: "\<forall>n. escapes ?w n = None" by (simp add: always_def)
  have r: "\<forall>n. 0 \<le> rand ?w n \<and> rand ?w n \<le> 1" by (simp add: always_def)
  have b: "0 \<le> backoff_base ?c" by (simp add: init_def)
  have l1: "backoff_base ?c ^ 1 * (3 / 2) \<le> sleep_limit ?w" by (simp add: init_def always_def)
  have l: "\<forall>k. 1 \<le> k \<and> int k < max_retries ?c \<longrightarrow> backoff_base ?c ^ k * (3 / 2) \<le> sleep_limit ?w"
  proof (intro allI impI)
    fix k :: nat assume "1 \<le> k \<and> int k < max_retries ?c"
    then have "k = 1" by (auto simp: init_def)
    with l1 show "backoff_base ?c ^ k * (3 / 2) \<le> sleep_limit ?w" by simp
  qed
  have t: "\<forall>k. transport ?w k = Inl ''Connection refused''" by (simp add: always_def)
  then have nt: "\<forall>k. int k < max_retries ?c \<longrightarrow>
               (case transport ?w k of
                  Inl msg \<Rightarrow> True
                | Inr r \<Rightarrow> r_status_code r \<noteq> 200
                          \<and> \<not> (400 \<le> r_status_code r \<and> r_status_code r < 500))"
    by simp
  from exhausted_retries[OF e r b l nt, of "''{}''" "''success''"] e r b l1 t
  show ?thesis by blast
qed

text \<open>
  Claim C4 as stated fails: with \<open>max_retries = 3\<close> and the backoff base 1e12 every
  request ends in a transport failure, and the backoff after the first attempt asks
  \<^verbatim>\<open>time.sleep\<close> for 1e12 seconds: the call raises \<^verbatim>\<open>OverflowError\<close>.
\<close>

theorem exhausted_retries_huge_base_raises:
  "fst (submit_invoice (init ''http://tax.example'' 3 1000000000000 5) ''{}'' ''success''
          (always (Inl ''Connection refused'')))
     = Inl (OverflowError ''timestamp out of range for platform time_t'')"
  by (simp add: eval_defs)

section \<open>Transport failures\<close>

text \<open>
  Claim C5, as amended. \<^verbatim>\<open>submit_invoice\<close> never raises a \<^verbatim>\<open>RequestException\<close>: in a
  returned log, the entry of every attempt whose request raised one has no status code
  and carries the text of the error. The call returns a status and a log whenever
  \<^verbatim>\<open>requests.post\<close> and \<^verbatim>\<open>response.json()\<close> raise nothing but a \<^verbatim>\<open>RequestException\<close>, the
  backoff base is not negative, and 1.5 times each power \<open>backoff_base ^ k\<close> with
  \<open>1 \<le> k < max_retries\<close> is a duration that \<^verbatim>\<open>time.sleep\<close> accepts.
\<close>

theorem transport_failures_are_logged:
  "(\<forall>msg. fst (submit_invoice self invoice mode w) \<noteq> Inl (RequestException msg))
   \<and> (\<forall>st lg w' k msg.
         submit_invoice self invoice mode w = (Inr (st, lg), w') \<and> k < length lg
           \<and> transport w k = Inl msg
         \<longrightarrow> lg ! k = \<lparr>attempt = int k + 1, status_code = None, response = PyStr msg\<rparr>)
   \<and> ((\<forall>n. escapes w n = None) \<and> (\<forall>n. 0 \<le> rand w n \<and> rand w n \<le> 1)
        \<and> 0 \<le> backoff_base self
        \<and> (\<forall>k. 1 \<le> k \<and> int k < max_retries self
               \<longrightarrow> backoff_base self ^ k * (3 / 2) \<le> sleep_limit w)
         \<longrightarrow> (\<exists>st lg w'. submit_invoice self invoice mode w = (Inr (st, lg), w')))"
proof -
  have p1: "\<forall>msg. fst (submit_invoice self invoice mode w) \<noteq> Inl (RequestException msg)"
    by (simp add: submit_invoice_never_request_exception)
  have p2: "lg ! k = \<lparr>attempt = int k + 1, status_code = None, response = PyStr msg\<rparr>"
    if "submit_invoice self invoice mode w = (Inr (st, lg), w') \<and> k < length lg
           \<and> transport w k = Inl msg" for st lg w' k msg
  proof -
    from that have run: "submit_invoice self invoice mode w = (Inr (st, lg), w')"
      and k: "k < length lg" and f: "transport w k = Inl msg" by simp_all
    from log_entry[OF run k] f show ?thesis by (simp add: logged_failure)
  qed
  have p3: "\<exists>st lg w'. submit_invoice self invoice mode w = (Inr (st, lg), w')"
    if "(\<forall>n. escapes w n = None) \<and> (\<forall>n. 0 \<le> rand w n \<and> rand w n \<le> 1)
        \<and> 0 \<le> backoff_base self
        \<and> (\<forall>k. 1 \<le> k \<and> int k < max_retries self
               \<longrightarrow> backoff_base self ^ k * (3 / 2) \<le> sleep_limit w)"
    using that by (intro submit_invoice_returns) blast+
  from p1 p2 p3 show ?thesis by blast
qed

theorem transport_failures_are_logged_witness:
  "submit_invoice (init ''http://tax.example'' 2 2 5) ''{}'' ''success''
       (first_then (Inl ''Read timed out'')
          (Inr \<lparr>r_status_code = 503, r_content = [], r_json = Inl []\<rparr>))
     = (Inr (''FAILED'',
             [\<lparr>attempt = 1, status_code = None, response = PyStr ''Read timed out''\<rparr>,
              \<lparr>attempt = 2, status_code = Some 503, response = PyNone\<rparr>]),
        snd (submit_invoice (init ''http://tax.example'' 2 2 5) ''{}'' ''success''
               (first_then (Inl ''Read timed out'')
                  (Inr \<lparr>r_status_code = 503, r_content = [], r_json = Inl []\<rparr>))))
   \<and> transport (first_then (Inl ''Read timed out'')
                  (Inr \<lparr>r_status_code = 503, r_content = [], r_json = Inl []\<rparr>)) 0
        = Inl ''Read timed out''
   \<and> [\<lparr>attempt = 1, status_code = None, response = PyStr ''Read timed out''\<rparr>,
       \<lparr>attempt = 2, status_code = Some 503, response = PyNone\<rparr>] ! 0
        = \<lparr>attempt = int 0 + 1, status_code = None, response = PyStr ''Read timed out''\<rparr>
   \<and> fst (submit_invoice (init ''http://tax.example'' 2 2 5) ''{}'' ''success''
               (first_then (Inl ''Read timed out'')
                  (Inr \<lparr>r_status_code = 503, r_content = [], r_json = Inl []\<rparr>)))
        \<noteq> Inl (RequestException ''Read timed out'')"
  using transport_failures_are_logged[of "init ''http://tax.example'' 2 2 5" "''{}''" "''success''"
          "first_then (Inl ''Read timed out'')
             (Inr \<lparr>r_status_code = 503, r_content = [], r_json = Inl []\<rparr>)"]
  by (simp add: eval_defs)

text \<open>
  Claim C5 as stated fails in its last part, that the call still returns an outcome:
  with \<open>max_retries = 2\<close> and the backoff base 1e20 the first request times out, the
  failure is caught, and the backoff that follows raises \<^verbatim>\<open>OverflowError\<close> from
  \<^verbatim>\<open>time.sleep\<close>.
\<close>

theorem transport_failure_then_huge_sleep_raises:
  "fst (submit_invoice (init ''http://tax.example'' 2 100000000000000000000 5) ''{}'' ''success''
          (first_then (Inl ''Read timed out'')
             (Inr \<lparr>r_status_code = 200, r_content = [], r_json = Inl []\<rparr>)))
     = Inl (OverflowError ''timestamp out of range for platform time_t'')"
  by (simp add: eval_defs)

section \<open>Backoff\<close>

text \<open>
  Claim C6, as amended. Let every draw of \<^verbatim>\<open>random.uniform(0.5, 1.5)\<close> lie between its
  arguments, the end points included. In every run, whether it returns or raises, the
  effects are, in this order, one request per attempt and, between the requests of the
  attempts \<open>k\<close> and \<open>k + 1\<close>, one sleep of duration \<open>backoff_base ^ k\<close> times the draw, which
  lies in the closed interval from \<open>backoff_base ^ k * 0.5\<close> to \<open>backoff_base ^ k * 1.5\<close>.
  The attempts followed by a sleep are not the last allowed attempt and do not end the
  loop. The last attempt of the run is followed by no sleep; in a run that returns, it is
  the last allowed attempt or it ends the loop. Durations are real numbers.
\<close>

theorem backoff_between_attempts:
  assumes rnd: "\<forall>n. 0 \<le> rand w n \<and> rand w n \<le> 1"
    and run: "submit_invoice self invoice mode w = (res, w')"
  shows "\<exists>n. trace w' = trace w @
                concat (map (\<lambda>i. Post (base_url self @ ''/tax/submit?mode='' @ mode) invoice
                                    (timeout self) #
                                 (if Suc i < n
                                  then [Sleep (backoff_base self ^ Suc i
                                                 * (1 / 2 + (3 / 2 - 1 / 2) * rand w i))]
                                  else []))
                            [0..<n])
           \<and> (\<forall>i. Suc i < n \<longrightarrow>
                  backoff_base self ^ Suc i * (1 / 2)
                    \<le> backoff_base self ^ Suc i * (1 / 2 + (3 / 2 - 1 / 2) * rand w i)
                  \<and> backoff_base self ^ Suc i * (1 / 2 + (3 / 2 - 1 / 2) * rand w i)
                    \<le> backoff_base self ^ Suc i * (3 / 2)
                  \<and> int (Suc i) < max_retries self \<and> verdict (transport w i) = None)
           \<and> (\<forall>st lg. res = Inr (st, lg) \<longrightarrow>
                  n = length lg
                  \<and> (lg = [] \<or> int (length lg) = max_retries self
                       \<or> verdict (transport w (length lg - 1)) = Some st))"
proof -
  let ?url = "base_url self @ ''/tax/submit?mode='' @ mode"
  have from_effects:
    "trace w' = trace w @
                concat (map (\<lambda>i. Post ?url invoice (timeout self) #
                                 (if Suc i < n
                                  then [Sleep (backoff_base self ^ Suc i
                                                 * (1 / 2 + (3 / 2 - 1 / 2) * rand w i))]
                                  else []))
                            [0..<n])
     \<and> (\<forall>i. Suc i < n \<longrightarrow>
                  backoff_base self ^ Suc i * (1 / 2)
                    \<le> backoff_base self ^ Suc i * (1 / 2 + (3 / 2 - 1 / 2) * rand w i)
                  \<and> backoff_base self ^ Suc i * (1 / 2 + (3 / 2 - 1 / 2) * rand w i)
                    \<le> backoff_base self ^ Suc i * (3 / 2)
                  \<and> int (Suc i) < max_retries self \<and> verdict (transport w i) = None)"
    if ef: "effects self ?url invoice 1 w w' n" for n
  proof (intro conjI allI impI)
    from ef show "trace w' = trace w @
                concat (map (\<lambda>i. Post ?url invoice (timeout self) #
                                 (if Suc i < n
                                  then [Sleep (backoff_base self ^ Suc i
                                                 * (1 / 2 + (3 / 2 - 1 / 2) * rand w i))]
                                  else []))
                            [0..<n])"
      by (simp only: effects_def new_events_from_1)
  next
    fix i assume i: "Suc i < n"
    with ef have f: "verdict (transport w i) = None" "1 + int i < max_retries self"
      "0 \<le> pause self 1 w i" by (simp_all add: effects_def)
    from rnd have r: "0 \<le> rand w i" "rand w i \<le> 1" by simp_all
    show "backoff_base self ^ Suc i * (1 / 2)
            \<le> backoff_base self ^ Suc i * (1 / 2 + (3 / 2 - 1 / 2) * rand w i)"
      using r f(3) by (rule pause_bounds(1))
    show "backoff_base self ^ Suc i * (1 / 2 + (3 / 2 - 1 / 2) * rand w i)
            \<le> backoff_base self ^ Suc i * (3 / 2)"
      using r f(3) by (rule pause_bounds(2))
    show "int (Suc i) < max_retries self" using f(2) by simp
    show "verdict (transport w i) = None" using f(1) .
  qed
  show ?thesis
  proof (cases res)
    case (Inl e)
    with run submit_invoice_fault_shape obtain n where
      "fault_shape self ?url invoice 1 w e w' n" by blast
    then have "effects self ?url invoice 1 w w' n" by (simp add: fault_shape_def)
    from from_effects[OF this] Inl show ?thesis by blast
  next
    case (Inr p)
    obtain st lg where p: "p = (st, lg)" by (cases p)
    with run Inr have r: "submit_invoice self invoice mode w = (Inr (st, lg), w')" by simp
    have fin: "lg = [] \<or> int (length lg) = max_retries self
                \<or> verdict (transport w (length lg - 1)) = Some st"
    proof (cases "lg = []")
      case True
      then show ?thesis by simp
    next
      case False
      then have pos: "0 < int (length lg)" by simp
      from log_last[OF r] consider
        (stop) "verdict (transport w (length lg - 1)) = Some st"
        | (full) "int (length lg) = max 0 (max_retries self)" by blast
      then show ?thesis
      proof cases
        case stop
        then show ?thesis by simp
      next
        case full
        with pos have "int (length lg) = max_retries self" by arith
        then show ?thesis by simp
      qed
    qed
    from from_effects[OF run_effects[OF r]] fin Inr p show ?thesis
      by (intro exI[of _ "length lg"]) simp
  qed
qed

theorem backoff_between_attempts_witness:
  "(\<forall>n. 0 \<le> rand (always (Inr \<lparr>r_status_code = 503, r_content = [], r_json = Inl []\<rparr>)) n
        \<and> rand (always (Inr \<lparr>r_status_code = 503, r_content = [], r_json = Inl []\<rparr>)) n \<le> 1)
   \<and> trace (snd (submit_invoice (init_default ''http://tax.example'') ''{}'' ''success''
          (always (Inr \<lparr>r_status_code = 503, r_content = [], r_json = Inl []\<rparr>))))
     = [Post ''http://tax.example/tax/submit?mode=success'' ''{}'' 5, Sleep 2,
        Post ''http://tax.example/tax/submit?mode=success'' ''{}'' 5, Sleep 4,
        Post ''http://tax.example/tax/submit?mode=success'' ''{}'' 5]
   \<and> (\<exists>n. trace (snd (submit_invoice (init_default ''http://tax.example'') ''{}'' ''success''
                 (always (Inr \<lparr>r_status_code = 503, r_content = [], r_json = Inl []\<rparr>))))
            = trace (always (Inr \<lparr>r_status_code = 503, r_content = [], r_json = Inl []\<rparr>)) @
                concat (map (\<lambda>i. Post (base_url (init_default ''http://tax.example'')
                                          @ ''/tax/submit?mode='' @ ''success'') ''{}''
                                    (timeout (init_default ''http://tax.example'')) #
                                 (if Suc i < n
                                  then [Sleep (backoff_base (init_default ''http://tax.example'') ^ Suc i
                                     * (1 / 2 + (3 / 2 - 1 / 2)
                                        * rand (always (Inr \<lparr>r_status_code = 503, r_content = [],
                                                             r_json = Inl []\<rparr>)) i))]
                                  else []))
                            [0..<n]))"
proof -
  let ?c = "init_default ''http://tax.example''"
  let ?w = "always (Inr \<lparr>r_status_code = 503, r_content = [], r_json = Inl []\<rparr>)"
  have t: "trace (snd (submit_invoice ?c ''{}'' ''success'' ?w))
     = [Post ''http://tax.example/tax/submit?mode=success'' ''{}'' 5, Sleep 2,
        Post ''http://tax.example/tax/submit?mode=success'' ''{}'' 5, Sleep 4,
        Post ''http://tax.example/tax/submit?mode=success'' ''{}'' 5]"
    by (simp add: eval_defs)
  have h: "\<forall>n. 0 \<le> rand ?w n \<and> rand ?w n \<le> 1" by (simp add: always_def)
  have r: "submit_invoice ?c ''{}'' ''success'' ?w
             = (fst (submit_invoice ?c ''{}'' ''success'' ?w),
                snd (submit_invoice ?c ''{}'' ''success'' ?w))" by simp
  from backoff_between_attempts[OF h r] t h show ?thesis by blast
qed

text \<open>
  Claim C6 as stated fails twice. With the default configuration and a draw of
  \<^verbatim>\<open>random.uniform(0.5, 1.5)\<close> at its end point 1.5, which the rounding of
  \<^verbatim>\<open>0.5 + 1.0 * random()\<close> reaches, the sleep after the first attempt lasts 3 seconds, which
  is not less than \<open>2 ^ 1 * 1.5\<close>. With the backoff base 1e20 the first attempt is not the
  last allowed one and does not end the loop, and no sleep occurs after it: the call
  raises \<^verbatim>\<open>OverflowError\<close>.
\<close>

theorem sleep_at_end_point_or_none:
  "trace (snd (submit_invoice (init_default ''http://tax.example'') ''{}'' ''success''
          (always_at_end_point (Inr \<lparr>r_status_code = 503, r_content = [], r_json = Inl []\<rparr>))))
     = [Post ''http://tax.example/tax/submit?mode=success'' ''{}'' 5, Sleep 3,
        Post ''http://tax.example/tax/submit?mode=success'' ''{}'' 5, Sleep 6,
        Post ''http://tax.example/tax/submit?mode=success'' ''{}'' 5]
   \<and> \<not> (3 < backoff_base (init_default ''http://tax.example'') ^ 1 * (3 / 2))
   \<and> trace (snd (submit_invoice (init ''http://tax.example'' 3 100000000000000000000 5) ''{}''
          ''success'' (always (Inr \<lparr>r_status_code = 503, r_content = [], r_json = Inl []\<rparr>))))
     = [Post ''http://tax.example/tax/submit?mode=success'' ''{}'' 5]
   \<and> fst (submit_invoice (init ''http://tax.example'' 3 100000000000000000000 5) ''{}''
          ''success'' (always (Inr \<lparr>r_status_code = 503, r_content = [], r_json = Inl []\<rparr>)))
     = Inl (OverflowError ''timestamp out of range for platform time_t'')"
  by (simp add: eval_defs)

section \<open>The entries of the log\<close>

text \<open>
  Claim C7, as amended. In every returned log the entry at position \<open>i\<close> (counted from 0)
  carries the attempt number \<open>i + 1\<close> and belongs to the request number \<open>i + 1\<close> of the
  call, and the call has issued exactly one request per entry. The entry carries a status
  code if and only if that request received a response whose body is empty or is accepted
  by \<^verbatim>\<open>response.json()\<close>, and then it is the status code of the response; after a
  transport failure the entry has no status code and carries the text of the error.
\<close>

theorem log_entries_follow_attempts:
  assumes run: "submit_invoice self invoice mode w = (Inr (st, lg), w')" and i: "i < length lg"
  shows "attempt (lg ! i) = int i + 1
       \<and> (status_code (lg ! i) \<noteq> None \<longleftrightarrow> (\<exists>r. transport w i = Inr r \<and> decodable r))
       \<and> (\<forall>r. transport w i = Inr r \<and> decodable r
              \<longrightarrow> status_code (lg ! i) = Some (r_status_code r))
       \<and> (\<forall>msg. transport w i = Inl msg
              \<longrightarrow> status_code (lg ! i) = None \<and> response (lg ! i) = PyStr msg)
       \<and> count_posts (trace w') = count_posts (trace w) + length lg"
proof -
  have e: "lg ! i = logged (int i + 1) (transport w i)" by (rule log_entry[OF run i])
  show ?thesis
  proof (cases "transport w i")
    case (Inl msg)
    with e submit_invoice_posts[OF run] show ?thesis by (simp add: logged_def)
  next
    case (Inr r)
    with e submit_invoice_posts[OF run] show ?thesis
      by (auto simp: logged_def decodable_def split: sum.splits)
  qed
qed

theorem log_entries_follow_attempts_witness:
  "submit_invoice (init ''http://tax.example'' 2 2 5) ''{}'' ''success''
       (first_then (Inl ''Connection refused'')
          (Inr \<lparr>r_status_code = 200, r_content = ''{}'', r_json = Inr ''{}''\<rparr>))
     = (Inr (''SUBMITTED'',
             [\<lparr>attempt = 1, status_code = None, response = PyStr ''Connection refused''\<rparr>,
              \<lparr>attempt = 2, status_code = Some 200, response = PyJson ''{}''\<rparr>]),
        snd (submit_invoice (init ''http://tax.example'' 2 2 5) ''{}'' ''success''
               (first_then (Inl ''Connection refused'')
                  (Inr \<lparr>r_status_code = 200, r_content = ''{}'', r_json = Inr ''{}''\<rparr>))))
   \<and> (1::nat) < length
         [\<lparr>attempt = 1, status_code = None, response = PyStr ''Connection refused''\<rparr>,
          \<lparr>attempt = 2, status_code = Some 200, response = PyJson ''{}''\<rparr>]
   \<and> attempt ([\<lparr>attempt = 1, status_code = None, response = PyStr ''Connection refused''\<rparr>,
                \<lparr>attempt = 2, status_code = Some 200, response = PyJson ''{}''\<rparr>] ! 1) = int 1 + 1
   \<and> count_posts (trace (snd (submit_invoice (init ''http://tax.example'' 2 2 5) ''{}'' ''success''
               (first_then (Inl ''Connection refused'')
                  (Inr \<lparr>r_status_code = 200, r_content = ''{}'', r_json = Inr ''{}''\<rparr>))))) = 2"
  using log_entries_follow_attempts[of "init ''http://tax.example'' 2 2 5" "''{}''" "''success''"
          "first_then (Inl ''Connection refused'')
             (Inr \<lparr>r_status_code = 200, r_content = ''{}'', r_json = Inr ''{}''\<rparr>)"
          "''SUBMITTED''"
          "[\<lparr>attempt = 1, status_code = None, response = PyStr ''Connection refused''\<rparr>,
            \<lparr>attempt = 2, status_code = Some 200, response = PyJson ''{}''\<rparr>]"
          "snd (submit_invoice (init ''http://tax.example'' 2 2 5) ''{}'' ''success''
               (first_then (Inl ''Connection refused'')
                  (Inr \<lparr>r_status_code = 200, r_content = ''{}'', r_json = Inr ''{}''\<rparr>)))"
          1]
  by (simp add: eval_defs)

text \<open>
  Claim C7 as stated fails in one direction: the only attempt receives a response, with
  status code 500 and an HTML body, and its entry has no status code.
\<close>

theorem response_logged_without_status_code:
  "fst (submit_invoice (init ''http://tax.example'' 1 2 5) ''{}'' ''success''
          (always (Inr \<lparr>r_status_code = 500, r_content = ''<html>'',
                        r_json = Inl ''Expecting value''\<rparr>)))
     = Inr (''FAILED'',
            [\<lparr>attempt = 1, status_code = None, response = PyStr ''Expecting value''\<rparr>])"
  by (simp add: eval_defs)

section \<open>Configuration errors\<close>

text \<open>
  Claim C8, as amended. Neither the constructor nor \<^verbatim>\<open>submit_invoice\<close> checks the
  configuration. With a retry count that is not positive the call returns \<^verbatim>\<open>FAILED\<close> with
  an empty log and no effect, which is an ordinary outcome and not a fault. With a retry
  count of at least 1 the first effect of the call is the call of \<^verbatim>\<open>requests.post\<close> with
  the base address followed by \<^verbatim>\<open>/tax/submit?mode=\<close> and the mode, whatever the base
  address is, and the call raises nothing before. When this first call of
  \<^verbatim>\<open>requests.post\<close> raises a \<^verbatim>\<open>RequestException\<close>, as it does for an address without a
  scheme, the error is no fault of the call: a log that the call returns begins with the
  entry of the error, without a status code. When it raises an exception of another class,
  as it does for some malformed addresses, that exception leaves the call at once: one
  call of \<^verbatim>\<open>requests.post\<close>, no sleep, no log.
\<close>

theorem no_configuration_check:
  "(m \<le> 0 \<longrightarrow> submit_invoice (init u m b t) invoice mode w = (Inr (''FAILED'', []), w))
   \<and> (1 \<le> m \<longrightarrow>
        (\<exists>evs. trace (snd (submit_invoice (init u m b t) invoice mode w))
                 = trace w @ Post (u @ ''/tax/submit?mode='' @ mode) invoice t # evs))
   \<and> (\<forall>e. fst (submit_invoice (init u m b t) invoice mode w) = Inl e \<longrightarrow>
        (\<exists>evs. trace (snd (submit_invoice (init u m b t) invoice mode w))
                 = trace w @ Post (u @ ''/tax/submit?mode='' @ mode) invoice t # evs))
   \<and> (\<forall>msg st lg w'. 1 \<le> m \<and> transport w 0 = Inl msg \<and> escapes w 0 = None
          \<and> submit_invoice (init u m b t) invoice mode w = (Inr (st, lg), w')
        \<longrightarrow> lg \<noteq> [] \<and> lg ! 0 = \<lparr>attempt = 1, status_code = None, response = PyStr msg\<rparr>)
   \<and> (\<forall>msg. fst (submit_invoice (init u m b t) invoice mode w) \<noteq> Inl (RequestException msg))
   \<and> (\<forall>msg cls. 1 \<le> m \<and> transport w 0 = Inl msg \<and> escapes w 0 = Some cls
        \<longrightarrow> fst (submit_invoice (init u m b t) invoice mode w) = Inl (OtherException cls msg)
            \<and> trace (snd (submit_invoice (init u m b t) invoice mode w))
                = trace w @ [Post (u @ ''/tax/submit?mode='' @ mode) invoice t])"
proof -
  let ?c = "init u m b t"
  let ?url = "u @ ''/tax/submit?mode='' @ mode"
  have c: "base_url ?c = u" "max_retries ?c = m" "timeout ?c = t" by (simp_all add: init_def)
  have inv: "submit_invoice ?c invoice mode w = submit_loop ?c ?url invoice 1 [] w"
    by (simp add: submit_invoice_def c)
  have p1: "submit_invoice ?c invoice mode w = (Inr (''FAILED'', []), w)" if "m \<le> 0"
    using that c by (simp add: submit_invoice_def submit_loop_done)
  have p2: "\<exists>evs. trace (snd (submit_invoice ?c invoice mode w))
                 = trace w @ Post ?url invoice t # evs" if "1 \<le> m"
  proof -
    from that c have "(1::int) < max_retries ?c + 1" by simp
    from submit_loop_first_post[OF this, of ?url invoice "[]" w]
    show ?thesis unfolding inv c .
  qed
  have p3: "\<exists>evs. trace (snd (submit_invoice ?c invoice mode w))
                 = trace w @ Post ?url invoice t # evs"
    if "fst (submit_invoice ?c invoice mode w) = Inl e" for e
  proof -
    have "1 \<le> m"
    proof (rule ccontr)
      assume "\<not> 1 \<le> m"
      then have "m \<le> 0" by simp
      from p1[OF this] that show False by simp
    qed
    then show ?thesis by (rule p2)
  qed
  have p4: "lg \<noteq> [] \<and> lg ! 0 = \<lparr>attempt = 1, status_code = None, response = PyStr msg\<rparr>"
    if h: "1 \<le> m \<and> transport w 0 = Inl msg \<and> escapes w 0 = None
          \<and> submit_invoice ?c invoice mode w = (Inr (st, lg), w')" for msg st lg w'
  proof -
    from h have run: "submit_invoice ?c invoice mode w = (Inr (st, lg), w')" by simp
    from h c have "1 \<le> max_retries ?c" by simp
    from log_nonempty[OF run this] have ne: "lg \<noteq> []" .
    then have "0 < length lg" by simp
    from log_entry[OF run this] h have "lg ! 0 = logged 1 (Inl msg)" by simp
    with ne show ?thesis by (simp add: logged_failure)
  qed
  have p5: "\<forall>msg. fst (submit_invoice ?c invoice mode w) \<noteq> Inl (RequestException msg)"
    by (simp add: submit_invoice_never_request_exception)
  have p6: "fst (submit_invoice ?c invoice mode w) = Inl (OtherException cls msg)
            \<and> trace (snd (submit_invoice ?c invoice mode w)) = trace w @ [Post ?url invoice t]"
    if h: "1 \<le> m \<and> transport w 0 = Inl msg \<and> escapes w 0 = Some cls" for msg cls
  proof -
    from h c have a: "(1::int) < max_retries ?c + 1" by simp
    from h have "uncaught (escapes w 0) (transport w 0) = Some (OtherException cls msg)"
      by (simp add: uncaught_def)
    with a have "submit_loop ?c ?url invoice 1 [] w
                   = (Inl (OtherException cls msg), posted ?url invoice (timeout ?c) w)"
      by (simp add: submit_loop_step)
    then show ?thesis unfolding inv by (simp add: posted_def c)
  qed
  from p1 p2 p3 p4 p5 p6 show ?thesis by blast
qed

theorem no_configuration_check_witness:
  "(0::int) \<le> 0
   \<and> submit_invoice (init ''not a url'' 0 2 5) ''{}'' ''success'' (always (Inl ''Invalid URL''))
       = (Inr (''FAILED'', []), always (Inl ''Invalid URL''))
   \<and> (1::int) \<le> 2
   \<and> (\<exists>evs. trace (snd (submit_invoice (init ''not a url'' 2 2 5) ''{}'' ''success''
                            (always (Inl ''Invalid URL''))))
              = trace (always (Inl ''Invalid URL''))
                  @ Post (''not a url'' @ ''/tax/submit?mode='' @ ''success'') ''{}'' 5 # evs)
   \<and> transport (always_escaping ''LocationParseError'' (Inl ''Failed to parse'')) 0
        = Inl ''Failed to parse''
   \<and> escapes (always_escaping ''LocationParseError'' (Inl ''Failed to parse'')) 0
        = Some ''LocationParseError''
   \<and> fst (submit_invoice (init ''http://aaaaaaaaaaaaaaaaaaaaaaaaaaaaaaaaaaaaaaaaaaaaaaaaaaaaaaaaaaaaaaaa.example'' 2 2 5) ''{}'' ''success''
             (always_escaping ''LocationParseError'' (Inl ''Failed to parse'')))
        = Inl (OtherException ''LocationParseError'' ''Failed to parse'')"
  using no_configuration_check[of 0 "''not a url''" 2 5 "''{}''" "''success''"
          "always (Inl ''Invalid URL'')"]
        no_configuration_check[of 2 "''not a url''" 2 5 "''{}''" "''success''"
          "always (Inl ''Invalid URL'')"]
        no_configuration_check[of 2 "''http://aaaaaaaaaaaaaaaaaaaaaaaaaaaaaaaaaaaaaaaaaaaaaaaaaaaaaaaaaaaaaaaa.example''" 2 5 "''{}''" "''success''"
          "always_escaping ''LocationParseError'' (Inl ''Failed to parse'')"]
  by (simp add: always_escaping_def always_def)

text \<open>
  Claim C8 as stated fails. A retry count of 0 gives the outcome \<^verbatim>\<open>FAILED\<close> and no
  fault. A base address without a scheme is passed to \<^verbatim>\<open>requests.post\<close>, whose
  \<^verbatim>\<open>RequestException\<close> for the invalid URL is caught as any transport failure: the call
  makes every allowed attempt, sleeps between them, logs them and returns \<^verbatim>\<open>FAILED\<close>.
\<close>

theorem configuration_errors_give_failed_outcome:
  "fst (submit_invoice (init ''http://tax.example'' 0 2 5) ''{}'' ''success''
          (always (Inl ''Connection refused'')))
     = Inr (''FAILED'', [])
   \<and> fst (submit_invoice (init ''tax.example'' 2 2 5) ''{}'' ''success''
          (always (Inl ''Invalid URL: No scheme supplied'')))
     = Inr (''FAILED'',
            [\<lparr>attempt = 1, status_code = None, response = PyStr ''Invalid URL: No scheme supplied''\<rparr>,
             \<lparr>attempt = 2, status_code = None, response = PyStr ''Invalid URL: No scheme supplied''\<rparr>])
   \<and> trace (snd (submit_invoice (init ''tax.example'' 2 2 5) ''{}'' ''success''
          (always (Inl ''Invalid URL: No scheme supplied''))))
     = [Post ''tax.example/tax/submit?mode=success'' ''{}'' 5, Sleep 2,
        Post ''tax.example/tax/submit?mode=success'' ''{}'' 5]"
  by (simp add: eval_defs)

section \<open>Two calls on one client\<close>

text \<open>
  Claim C9, as amended. Let \<open>max_retries \<ge> 1\<close> and let every request receive the same
  response, with status code 200 and a body that is empty or accepted by
  \<^verbatim>\<open>response.json()\<close>. Then a call of \<^verbatim>\<open>submit_invoice\<close> and a second call on the same
  client with the same input, in the world the first call has left, both return
  \<^verbatim>\<open>SUBMITTED\<close> with the same log of exactly one entry, numbered 1.
\<close>

theorem repeated_submission:
  assumes m: "1 \<le> max_retries self" and t: "\<forall>n. transport w n = Inr r"
    and s: "r_status_code r = 200" and d: "decodable r"
  shows "\<exists>e w1 w2. submit_invoice self invoice mode w = (Inr (''SUBMITTED'', [e]), w1)
           \<and> submit_invoice self invoice mode w1 = (Inr (''SUBMITTED'', [e]), w2)
           \<and> attempt e = 1 \<and> status_code e = Some 200"
proof -
  let ?url = "base_url self @ ''/tax/submit?mode='' @ mode"
  let ?w1 = "posted ?url invoice (timeout self) w"
  let ?w2 = "posted ?url invoice (timeout self) ?w1"
  have c1: "submit_invoice self invoice mode w = (Inr (''SUBMITTED'', [logged 1 (Inr r)]), ?w1)"
    unfolding submit_invoice_def Let_def using m s d t by (intro submit_loop_first_200) simp_all
  have "transport ?w1 0 = Inr r" using t by (simp add: posted_def)
  then have c2: "submit_invoice self invoice mode ?w1
                   = (Inr (''SUBMITTED'', [logged 1 (Inr r)]), ?w2)"
    unfolding submit_invoice_def Let_def using m s d by (intro submit_loop_first_200)
  from logged_response[OF d, of 1] s
  have "attempt (logged 1 (Inr r)) = 1" "status_code (logged 1 (Inr r)) = Some 200" by simp_all
  with c1 c2 show ?thesis by blast
qed

theorem repeated_submission_witness:
  "1 \<le> max_retries (init_default ''http://tax.example'')
   \<and> (\<forall>n. transport (always (Inr \<lparr>r_status_code = 200, r_content = [], r_json = Inl []\<rparr>)) n
            = Inr \<lparr>r_status_code = 200, r_content = [], r_json = Inl []\<rparr>)
   \<and> r_status_code \<lparr>r_status_code = 200, r_content = [], r_json = Inl []\<rparr> = 200
   \<and> decodable \<lparr>r_status_code = 200, r_content = [], r_json = Inl []\<rparr>
   \<and> (\<exists>e w1 w2. submit_invoice (init_default ''http://tax.example'') ''{}'' ''success''
                    (always (Inr \<lparr>r_status_code = 200, r_content = [], r_json = Inl []\<rparr>))
                  = (Inr (''SUBMITTED'', [e]), w1)
           \<and> submit_invoice (init_default ''http://tax.example'') ''{}'' ''success'' w1
                  = (Inr (''SUBMITTED'', [e]), w2)
           \<and> attempt e = 1 \<and> status_code e = Some 200)"
  using repeated_submission[of "init_default ''http://tax.example''"
          "always (Inr \<lparr>r_status_code = 200, r_content = [], r_json = Inl []\<rparr>)"
          "\<lparr>r_status_code = 200, r_content = [], r_json = Inl []\<rparr>" "''{}''" "''success''"]
  by (simp add: init_default_def init_def always_def decodable_def)

text \<open>
  Claim C9 as stated fails: with \<open>max_retries = 0\<close> a transport that always answers 200
  is never asked and the log is empty; and with a transport that always answers 200 with
  a body that \<^verbatim>\<open>response.json()\<close> rejects, the call returns \<^verbatim>\<open>FAILED\<close> with one entry
  per allowed attempt.
\<close>

theorem always_200_without_one_entry:
  "fst (submit_invoice (init ''http://tax.example'' 0 2 5) ''{}'' ''success''
          (always (Inr \<lparr>r_status_code = 200, r_content = [], r_json = Inl []\<rparr>)))
     = Inr (''FAILED'', [])
   \<and> fst (submit_invoice (init ''http://tax.example'' 2 2 5) ''{}'' ''success''
          (always (Inr \<lparr>r_status_code = 200, r_content = ''OK'', r_json = Inl ''Expecting value''\<rparr>)))
     = Inr (''FAILED'',
            [\<lparr>attempt = 1, status_code = None, response = PyStr ''Expecting value''\<rparr>,
             \<lparr>attempt = 2, status_code = None, response = PyStr ''Expecting value''\<rparr>])"
  by (simp add: eval_defs)

section \<open>A retry count that is not positive\<close>

text \<open>
  Claim C10. The constructor stores \<open>max_retries\<close> as it is given. If the client is
  constructed with \<open>max_retries \<le> 0\<close>, \<^verbatim>\<open>submit_invoice\<close> returns \<^verbatim>\<open>FAILED\<close> with an empty
  log and leaves the world as it was: no request is issued. A log of at least one entry is
  therefore guaranteed only for \<open>max_retries \<ge> 1\<close>.
\<close>

theorem nonpositive_max_retries_empty_log:
  "max_retries (init url m b t) = m \<and>
   (m \<le> 0 \<longrightarrow> submit_invoice (init url m b t) invoice mode w = (Inr (''FAILED'', []), w))"
  by (simp add: init_def submit_invoice_def submit_loop_done)

theorem nonpositive_max_retries_empty_log_witness:
  "max_retries (init ''http://tax.example'' 0 2 5) = 0 \<and> (0::int) \<le> 0 \<and>
   submit_invoice (init ''http://tax.example'' 0 2 5) ''{}'' ''success''
       (always (Inr \<lparr>r_status_code = 200, r_content = [], r_json = Inl []\<rparr>))
     = (Inr (''FAILED'', []), always (Inr \<lparr>r_status_code = 200, r_content = [], r_json = Inl []\<rparr>))"
  using nonpositive_max_retries_empty_log[of "''http://tax.example''" 0 2 5 "''{}''" "''success''"
          "always (Inr \<lparr>r_status_code = 200, r_content = [], r_json = Inl []\<rparr>)"]
  by simp

end
